theory Spec2Isabelle
  imports Complex_Main "HOL-Library.Sublist" "HOL-Library.Multiset"
begin

section \<open>Strings: \<open>String.prototype.split\<close> and the display name\<close>

text \<open>
  \<open>s.split(sep)\<close> with a non-empty separator scans \<open>s\<close> from the left, cuts at every
  non-overlapping occurrence of \<open>sep\<close> and returns the pieces between the cuts (at least
  one piece, possibly empty). With the empty separator it returns the single characters.
  The pending piece is accumulated in reverse in \<open>acc\<close>.
\<close>

function splitFrom :: "string \<Rightarrow> string \<Rightarrow> string \<Rightarrow> string list" where
  "splitFrom sep acc [] = [rev acc]"
| "splitFrom sep acc (c # cs) =
     (if sep \<noteq> [] \<and> prefix sep (c # cs)
      then rev acc # splitFrom sep [] (drop (length sep - 1) cs)
      else splitFrom sep (c # acc) cs)"
  by pat_completeness auto
termination
  by (relation "measure (\<lambda>(sep, acc, s). length s)") auto

definition split :: "string \<Rightarrow> string \<Rightarrow> string list" where
  "split s sep = (if sep = [] then map (\<lambda>c. [c]) s else splitFrom sep [] s)"

text \<open>
  Lines 17 to 20 of \<open>processImages\<close>:
  \<^verbatim>\<open>nameParts = name.split('_01')[0].split('_')\<close>, \<open>lastName = nameParts[0]\<close>,
  \<open>firstName = nameParts[1]\<close> and the template \<open>`${firstName} ${lastName}`\<close>.
  An index past the end of an array reads \<open>undefined\<close>, which a template literal
  renders as the nine characters \<open>undefined\<close>. \<open>split\<close> with a non-empty separator
  never returns an empty array (\<open>splitFrom_not_Nil\<close>), so the piece at index 0 exists.
\<close>

definition at_index :: "'a list \<Rightarrow> nat \<Rightarrow> 'a option" where
  "at_index xs i = (if i < length xs then Some (xs ! i) else None)"

definition template :: "string option \<Rightarrow> string" where
  "template v = (case v of None \<Rightarrow> ''undefined'' | Some s \<Rightarrow> s)"

definition nameParts :: "string \<Rightarrow> string list" where
  "nameParts fileName =
     (case split fileName ''_01'' of p # _ \<Rightarrow> split p ''_'' | [] \<Rightarrow> [])"

definition formattedName :: "string \<Rightarrow> string" where
  "formattedName fileName =
     (let lastName = at_index (nameParts fileName) 0;
          firstName = at_index (nameParts fileName) 1
      in template firstName @ '' '' @ template lastName)"

text \<open>
  The derivation in the words of the specification: the part of the file name before the
  first occurrence of \<open>_01\<close> (the whole name when there is none), cut at every
  underscore; token 0 is the last name, token 1 the first name.
\<close>

fun beforeFirst :: "string \<Rightarrow> string \<Rightarrow> string" where
  "beforeFirst sep [] = []"
| "beforeFirst sep (c # cs) = (if prefix sep (c # cs) then [] else c # beforeFirst sep cs)"

fun tokens :: "char \<Rightarrow> string \<Rightarrow> string list" where
  "tokens d [] = [[]]"
| "tokens d (c # cs) =
     (if c = d then [] # tokens d cs
      else (case tokens d cs of t # ts \<Rightarrow> (c # t) # ts | [] \<Rightarrow> [[c]]))"

definition specDisplayName :: "string \<Rightarrow> string" where
  "specDisplayName fileName =
     (let ts = tokens (CHR ''_'') (beforeFirst ''_01'' fileName)
      in template (at_index ts 1) @ '' '' @ template (at_index ts 0))"

section \<open>Data model\<close>

text \<open>
  JavaScript numbers are modelled as \<open>real\<close>: the layout and progress formulas are read
  in exact arithmetic. Fields keep the names of the source; the fields of \<open>TextOptions\<close>
  carry the prefix \<open>opt_\<close> and those of \<open>ProcessedImage\<close> that would clash the prefix
  \<open>result\<close>, since a field name is a constant of the theory.
\<close>

text \<open>
  Modelled from the spec: the declarations of \<open>FileData\<close>, \<open>TextOptions\<close> and
  \<open>ProcessedImage\<close> (\<open>src/types\<close>) are not among the sources. The fields are those
  that \<open>imageProcessor.ts\<close> reads and writes; the specification gives the position as
  an enumeration of four anchors and the text, the colour, the stroke colour and the
  stroke width as possibly absent.
\<close>

record Transform =
  rotation :: real
  scale :: real
  position :: "real \<times> real"

record FileData =
  name :: string
  preview :: string
  transform :: "Transform option"

datatype TextPosition = TopLeft | TopRight | BottomLeft | BottomRight

record TextOptions =
  opt_enabled :: bool
  opt_text :: "string option"
  opt_font :: string
  opt_size :: real
  opt_bold :: bool
  opt_italic :: bool
  opt_color :: "string option"
  opt_position :: TextPosition
  opt_stroke :: bool
  opt_strokeColor :: "string option"
  opt_strokeWidth :: "real option"

text \<open>A decoded \<open>HTMLImageElement\<close>: its source and its pixel dimensions.\<close>

record Image =
  src :: string
  width :: nat
  height :: nat

datatype error = Error string

datatype side = LeftImage | RightImage

section \<open>The 2D canvas\<close>

text \<open>
  The current transformation matrix \<open>Matrix a b c d e f\<close> maps the point \<open>(x, y)\<close> of
  the user space to \<open>(a x + c y + e, b x + d y + f)\<close> on the canvas. \<open>translate\<close>,
  \<open>rotate\<close> and \<open>scale\<close> multiply the current matrix on the right, as the canvas
  standard defines them.
\<close>

datatype matrix = Matrix real real real real real real

definition identity :: matrix where
  "identity = Matrix 1 0 0 1 0 0"

fun mapPoint :: "matrix \<Rightarrow> real \<times> real \<Rightarrow> real \<times> real" where
  "mapPoint (Matrix a b c d e f) (px, py) = (a * px + c * py + e, b * px + d * py + f)"

fun translated :: "real \<Rightarrow> real \<Rightarrow> matrix \<Rightarrow> matrix" where
  "translated tx ty (Matrix a b c d e f) =
     Matrix a b c d (a * tx + c * ty + e) (b * tx + d * ty + f)"

fun rotated :: "real \<Rightarrow> matrix \<Rightarrow> matrix" where
  "rotated angle (Matrix a b c d e f) =
     Matrix (a * cos angle + c * sin angle) (b * cos angle + d * sin angle)
            (c * cos angle - a * sin angle) (d * cos angle - b * sin angle) e f"

fun scaled :: "real \<Rightarrow> real \<Rightarrow> matrix \<Rightarrow> matrix" where
  "scaled sx sy (Matrix a b c d e f) = Matrix (a * sx) (b * sx) (c * sy) (d * sy) e f"

text \<open>
  What has been painted is kept as the list of drawing commands, each with the matrix and
  the styles in force when it was issued.
\<close>

datatype command =
    FillRect matrix string real real real real
  | DrawImage matrix Image real real real real
  | StrokeText matrix string real string string real real
  | FillText matrix string string string real real

record DrawState =
  ctm :: matrix
  fillStyle :: string
  strokeStyle :: string
  lineWidth :: real
  font :: string

record Context =
  state :: DrawState
  stack :: "DrawState list"
  ops :: "command list"

definition canvas_width :: real where
  "canvas_width = 1920"

definition canvas_height :: real where
  "canvas_height = 1080"

definition newContext :: Context where
  "newContext =
     \<lparr>state = \<lparr>ctm = identity, fillStyle = ''#000000'', strokeStyle = ''#000000'',
                lineWidth = 1, font = ''10px sans-serif''\<rparr>,
      stack = [], ops = []\<rparr>"

definition ctx_save :: "Context \<Rightarrow> Context" where
  "ctx_save c = c\<lparr>stack := state c # stack c\<rparr>"

definition ctx_restore :: "Context \<Rightarrow> Context" where
  "ctx_restore c = (case stack c of [] \<Rightarrow> c | s # ss \<Rightarrow> c\<lparr>state := s, stack := ss\<rparr>)"

definition ctx_translate :: "real \<Rightarrow> real \<Rightarrow> Context \<Rightarrow> Context" where
  "ctx_translate tx ty c = c\<lparr>state := (state c)\<lparr>ctm := translated tx ty (ctm (state c))\<rparr>\<rparr>"

definition ctx_rotate :: "real \<Rightarrow> Context \<Rightarrow> Context" where
  "ctx_rotate angle c = c\<lparr>state := (state c)\<lparr>ctm := rotated angle (ctm (state c))\<rparr>\<rparr>"

definition ctx_scale :: "real \<Rightarrow> real \<Rightarrow> Context \<Rightarrow> Context" where
  "ctx_scale sx sy c = c\<lparr>state := (state c)\<lparr>ctm := scaled sx sy (ctm (state c))\<rparr>\<rparr>"

definition ctx_setFillStyle :: "string \<Rightarrow> Context \<Rightarrow> Context" where
  "ctx_setFillStyle v c = c\<lparr>state := (state c)\<lparr>fillStyle := v\<rparr>\<rparr>"

definition ctx_setStrokeStyle :: "string \<Rightarrow> Context \<Rightarrow> Context" where
  "ctx_setStrokeStyle v c = c\<lparr>state := (state c)\<lparr>strokeStyle := v\<rparr>\<rparr>"

definition ctx_setLineWidth :: "real \<Rightarrow> Context \<Rightarrow> Context" where
  "ctx_setLineWidth v c = c\<lparr>state := (state c)\<lparr>lineWidth := v\<rparr>\<rparr>"

definition ctx_setFont :: "string \<Rightarrow> Context \<Rightarrow> Context" where
  "ctx_setFont v c = c\<lparr>state := (state c)\<lparr>font := v\<rparr>\<rparr>"

definition ctx_fillRect :: "real \<Rightarrow> real \<Rightarrow> real \<Rightarrow> real \<Rightarrow> Context \<Rightarrow> Context" where
  "ctx_fillRect rx ry rw rh c =
     c\<lparr>ops := ops c @ [FillRect (ctm (state c)) (fillStyle (state c)) rx ry rw rh]\<rparr>"

definition ctx_drawImage :: "Image \<Rightarrow> real \<Rightarrow> real \<Rightarrow> real \<Rightarrow> real \<Rightarrow> Context \<Rightarrow> Context" where
  "ctx_drawImage img dx dy dw dh c =
     c\<lparr>ops := ops c @ [DrawImage (ctm (state c)) img dx dy dw dh]\<rparr>"

definition ctx_strokeText :: "string \<Rightarrow> real \<Rightarrow> real \<Rightarrow> Context \<Rightarrow> Context" where
  "ctx_strokeText s tx ty c =
     c\<lparr>ops := ops c @ [StrokeText (ctm (state c)) (strokeStyle (state c))
                          (lineWidth (state c)) (font (state c)) s tx ty]\<rparr>"

definition ctx_fillText :: "string \<Rightarrow> real \<Rightarrow> real \<Rightarrow> Context \<Rightarrow> Context" where
  "ctx_fillText s tx ty c =
     c\<lparr>ops := ops c @ [FillText (ctm (state c)) (fillStyle (state c)) (font (state c)) s tx ty]\<rparr>"

section \<open>The platform\<close>

text \<open>
  What the browser decides: the collation of \<open>localeCompare\<close>, whether the canvas of the
  \<open>k\<close>-th composite of a run gets a 2D context, whether each of its two images decodes
  (and to what), which of two failing images reports first, the measured width of a text
  under the string assigned to \<open>ctx.font\<close>, and the decimal rendering of a number inside
  a template literal.
\<close>

record Platform =
  localeCompare :: "string \<Rightarrow> string \<Rightarrow> int"
  getContext :: "nat \<Rightarrow> bool"
  loadImage :: "nat \<Rightarrow> side \<Rightarrow> string \<Rightarrow> Image option"
  firstError :: "nat \<Rightarrow> side"
  measureText :: "string \<Rightarrow> string \<Rightarrow> real"
  numberToString :: "real \<Rightarrow> string"

section \<open>\<open>createCombinedImage\<close>\<close>

text \<open>
  The inner function \<open>drawImage(img, x, transform)\<close>. A division by zero cannot arise
  for a decoded image of positive width and height; the theorems on the rectangle assume
  both positive.
\<close>

definition drawImage :: "Image \<Rightarrow> real \<Rightarrow> Transform option \<Rightarrow> Context \<Rightarrow> Context" where
  "drawImage img x tr c =
     (let halfWidth = canvas_width / 2;
          c1 = ctx_save c;
          c2 = ctx_translate (x + halfWidth / 2) (canvas_height / 2) c1;
          c3 = (case tr of
                  None \<Rightarrow> c2
                | Some t \<Rightarrow>
                    ctx_translate (fst (position t)) (snd (position t))
                      (ctx_scale (scale t) (scale t)
                        (ctx_rotate (rotation t * pi / 180) c2)));
          c4 = ctx_translate (- halfWidth / 2) (- canvas_height / 2) c3;
          imgRatio = real (width img) / real (height img);
          drawWidth = (if imgRatio > halfWidth / canvas_height
                       then canvas_height * imgRatio else halfWidth);
          drawHeight = (if imgRatio > halfWidth / canvas_height
                        then canvas_height else halfWidth / imgRatio);
          drawX = x + (halfWidth - drawWidth) / 2;
          drawY = (canvas_height - drawHeight) / 2
      in ctx_restore (ctx_drawImage img drawX drawY drawWidth drawHeight c4))"

text \<open>\<open>a || b\<close> on a possibly absent string: the empty string is falsy.\<close>

definition truthy :: "string option \<Rightarrow> bool" where
  "truthy v = (case v of None \<Rightarrow> False | Some s \<Rightarrow> s \<noteq> [])"

definition orElse :: "string option \<Rightarrow> string \<Rightarrow> string" where
  "orElse v d = (case v of None \<Rightarrow> d | Some s \<Rightarrow> if s = [] then d else s)"

text \<open>\<open>w || 2\<close> on a possibly absent number: zero is falsy.\<close>

definition orElseNumber :: "real option \<Rightarrow> real \<Rightarrow> real" where
  "orElseNumber v d = (case v of None \<Rightarrow> d | Some w \<Rightarrow> if w = 0 then d else w)"

fun join :: "string \<Rightarrow> string list \<Rightarrow> string" where
  "join sep [] = []"
| "join sep [s] = s"
| "join sep (s # t # ts) = s @ sep @ join sep (t # ts)"

text \<open>The \<open>switch\<close> on \<open>textOptions.position\<close> (lines 131 to 148).\<close>

fun textAnchor :: "TextPosition \<Rightarrow> real \<Rightarrow> real \<Rightarrow> real \<times> real" where
  "textAnchor TopLeft textHeight textWidth = (20, textHeight + 20)"
| "textAnchor TopRight textHeight textWidth = (canvas_width - textWidth - 20, textHeight + 20)"
| "textAnchor BottomLeft textHeight textWidth = (20, canvas_height - 20)"
| "textAnchor BottomRight textHeight textWidth =
     (canvas_width - textWidth - 20, canvas_height - 20)"

text \<open>
  The body of \<open>if (textOptions?.enabled && textOptions?.text)\<close> (lines 117 to 156);
  inside the guard the text is present and not empty. \<open>fontString\<close> is the template
  literal assigned to \<open>ctx.font\<close> (lines 117 to 121).
\<close>

definition fontString :: "Platform \<Rightarrow> TextOptions \<Rightarrow> string" where
  "fontString P t =
     (let fontStyle = (if opt_bold t then [''bold''] else []) @
                      (if opt_italic t then [''italic''] else [])
      in join '' '' fontStyle @ '' '' @ numberToString P (opt_size t) @ ''px '' @ opt_font t)"

definition drawText :: "Platform \<Rightarrow> TextOptions \<Rightarrow> Context \<Rightarrow> Context" where
  "drawText P t c =
     (let c1 = ctx_setFont (fontString P t) c;
          c2 = ctx_setFillStyle (orElse (opt_color t) ''#000000'') c1;
          s = orElse (opt_text t) [];
          textWidth = measureText P (font (state c2)) s;
          textHeight = opt_size t;
          (textX, textY) = textAnchor (opt_position t) textHeight textWidth;
          c3 = (if opt_stroke t
                then ctx_strokeText s textX textY
                       (ctx_setLineWidth (orElseNumber (opt_strokeWidth t) 2)
                         (ctx_setStrokeStyle (orElse (opt_strokeColor t) ''#FFFFFF'') c2))
                else c2)
      in ctx_fillText s textX textY c3)"

text \<open>
  A \<open>ProcessedImage\<close>. \<open>dataUrl\<close> holds what \<open>canvas.toDataURL\<close> encodes: the content
  of the canvas, as the commands that painted it.
\<close>

record ProcessedImage =
  dataUrl :: "command list"
  resultName :: string
  leftPhoto :: string
  rightPhoto :: string
  resultTextOptions :: "TextOptions option"
  resultTransform :: "Transform option \<times> Transform option"

text \<open>The body of \<open>checkBothLoaded\<close> once both images are loaded (lines 72 to 171).\<close>

definition checkBothLoaded ::
  "Platform \<Rightarrow> Image \<Rightarrow> Image \<Rightarrow> FileData \<Rightarrow> FileData \<Rightarrow> string \<Rightarrow> TextOptions option
   \<Rightarrow> Context \<Rightarrow> ProcessedImage" where
  "checkBothLoaded P leftImg rightImg leftFile rightFile displayName textOptions c =
     (let c1 = drawImage leftImg 0 (transform leftFile) c;
          c2 = drawImage rightImg (canvas_width / 2) (transform rightFile) c1;
          c3 = (case textOptions of
                  None \<Rightarrow> c2
                | Some t \<Rightarrow> if opt_enabled t \<and> truthy (opt_text t) then drawText P t c2 else c2)
      in \<lparr>dataUrl = ops c3, resultName = displayName,
          leftPhoto = preview leftFile, rightPhoto = preview rightFile,
          resultTextOptions = textOptions,
          resultTransform = (transform leftFile, transform rightFile)\<rparr>)"

text \<open>
  The canvas before the images are requested (lines 58 to 62): 1920 by 1080, filled white.
  Then \<open>createCombinedImage\<close>, the \<open>k\<close>-th composite of a run. The promise rejects when
  there is no context, or with the error of the image that fails; when both images fail,
  with the error reported first, a promise settling once. It resolves when both are loaded.
\<close>

definition loadError :: "side \<Rightarrow> FileData \<Rightarrow> error" where
  "loadError s file =
     (case s of
        LeftImage \<Rightarrow> Error (''Failed to load left image: '' @ name file)
      | RightImage \<Rightarrow> Error (''Failed to load right image: '' @ name file))"

definition whiteCanvas :: Context where
  "whiteCanvas = ctx_fillRect 0 0 canvas_width canvas_height
                   (ctx_setFillStyle ''#FFFFFF'' newContext)"

definition createCombinedImage ::
  "Platform \<Rightarrow> nat \<Rightarrow> FileData \<Rightarrow> FileData \<Rightarrow> string \<Rightarrow> TextOptions option
   \<Rightarrow> error + ProcessedImage" where
  "createCombinedImage P k leftFile rightFile displayName textOptions =
     (if \<not> getContext P k then Inl (Error ''Could not get canvas context'')
      else
        (case (loadImage P k LeftImage (preview leftFile),
               loadImage P k RightImage (preview rightFile)) of
           (Some leftImg, Some rightImg) \<Rightarrow>
             Inr (checkBothLoaded P leftImg rightImg leftFile rightFile displayName
                    textOptions whiteCanvas)
         | (None, Some rightImg) \<Rightarrow> Inl (loadError LeftImage leftFile)
         | (Some leftImg, None) \<Rightarrow> Inl (loadError RightImage rightFile)
         | (None, None) \<Rightarrow>
             (case firstError P k of
                LeftImage \<Rightarrow> Inl (loadError LeftImage leftFile)
              | RightImage \<Rightarrow> Inl (loadError RightImage rightFile))))"

section \<open>\<open>processImages\<close>\<close>

text \<open>
  \<open>Array.prototype.sort\<close> is stable and sorts in place. Insertion from the right, each
  element going in front of the elements it does not follow, is a stable sort.
\<close>

fun insertBy :: "('a \<Rightarrow> 'a \<Rightarrow> int) \<Rightarrow> 'a \<Rightarrow> 'a list \<Rightarrow> 'a list" where
  "insertBy cmp v [] = [v]"
| "insertBy cmp v (y # ys) = (if cmp v y \<le> 0 then v # y # ys else y # insertBy cmp v ys)"

definition sortBy :: "('a \<Rightarrow> 'a \<Rightarrow> int) \<Rightarrow> 'a list \<Rightarrow> 'a list" where
  "sortBy cmp xs = foldr (insertBy cmp) xs []"

definition byName :: "Platform \<Rightarrow> FileData \<Rightarrow> FileData \<Rightarrow> int" where
  "byName P a b = localeCompare P (name a) (name b)"

text \<open>
  The arrays live in a store, a reference being an index into it, so that sorting in place
  is visible: \<open>[...xs]\<close> allocates a new array with the elements of \<open>xs\<close>, and
  \<open>.sort(f)\<close> overwrites the array it is called on.
\<close>

type_synonym ref = nat

type_synonym store = "FileData list list"

definition spread :: "store \<Rightarrow> ref \<Rightarrow> store \<times> ref" where
  "spread h r = (h @ [h ! r], length h)"

definition sortInPlace :: "(FileData \<Rightarrow> FileData \<Rightarrow> int) \<Rightarrow> store \<Rightarrow> ref \<Rightarrow> store" where
  "sortInPlace cmp h r = h[r := sortBy cmp (h ! r)]"

text \<open>The per-pair text options \<open>textOpts\<close> (lines 22 to 26).\<close>

definition textOpts :: "TextOptions \<Rightarrow> string \<Rightarrow> TextOptions" where
  "textOpts globalTextOptions formatted =
     globalTextOptions
       \<lparr>opt_text := Some (if opt_enabled globalTextOptions
                          then orElse (opt_text globalTextOptions) formatted
                          else formatted),
        opt_color := Some (orElse (opt_color globalTextOptions) ''#000000'')\<rparr>"

text \<open>
  The \<open>for\<close> loop (lines 16 to 38), with the results and the values passed to
  \<open>onProgress\<close> so far. A rejected \<open>await\<close> leaves the loop with the error, and the
  results collected so far are dropped with it.
\<close>

function forLoop ::
  "Platform \<Rightarrow> store \<Rightarrow> ref \<Rightarrow> ref \<Rightarrow> nat \<Rightarrow> TextOptions \<Rightarrow> nat \<Rightarrow> ProcessedImage list
   \<Rightarrow> real list \<Rightarrow> real list \<times> (error + ProcessedImage list)" where
  "forLoop P h sortedBabyPhotos sortedCurrentPhotos totalImages globalTextOptions i results
     progress =
     (if i < totalImages then
        (let formatted = formattedName (name (h ! sortedBabyPhotos ! i))
         in case createCombinedImage P i (h ! sortedBabyPhotos ! i)
                   (h ! sortedCurrentPhotos ! i) formatted
                   (Some (textOpts globalTextOptions formatted)) of
              Inl e \<Rightarrow> (progress, Inl e)
            | Inr result \<Rightarrow>
                forLoop P h sortedBabyPhotos sortedCurrentPhotos totalImages globalTextOptions
                  (i + 1) (results @ [result])
                  (progress @ [real (i + 1) / real totalImages * 100]))
      else (progress, Inr results))"
  by pat_completeness auto
termination
  by (relation "measure (\<lambda>(P, h, sb, sc, totalImages, g, i, results, progress). totalImages - i)")
     auto

text \<open>
  \<open>processImages\<close> on the store \<open>h\<close> returns the store it leaves, the values passed to
  \<open>onProgress\<close> in order, and the error of the rejected promise or the results.
\<close>

definition processImages ::
  "Platform \<Rightarrow> store \<Rightarrow> ref \<Rightarrow> ref \<Rightarrow> TextOptions
   \<Rightarrow> store \<times> real list \<times> (error + ProcessedImage list)" where
  "processImages P h babyPhotos currentPhotos globalTextOptions =
     (let totalImages = min (length (h ! babyPhotos)) (length (h ! currentPhotos));
          (h1, sortedBabyPhotos) = spread h babyPhotos;
          h2 = sortInPlace (byName P) h1 sortedBabyPhotos;
          (h3, sortedCurrentPhotos) = spread h2 currentPhotos;
          h4 = sortInPlace (byName P) h3 sortedCurrentPhotos
      in (h4, forLoop P h4 sortedBabyPhotos sortedCurrentPhotos totalImages
                globalTextOptions 0 [] []))"

section \<open>Notions used in the statements\<close>

text \<open>The composite of the pair at index \<open>i\<close> of two arrays, as the loop requests it.\<close>

definition pairResult ::
  "Platform \<Rightarrow> TextOptions \<Rightarrow> FileData list \<Rightarrow> FileData list \<Rightarrow> nat \<Rightarrow> error + ProcessedImage" where
  "pairResult P g ls rs i =
     createCombinedImage P i (ls ! i) (rs ! i) (formattedName (name (ls ! i)))
       (Some (textOpts g (formattedName (name (ls ! i)))))"

definition progressValue :: "nat \<Rightarrow> nat \<Rightarrow> real" where
  "progressValue totalImages i = real (i + 1) / real totalImages * 100"

text \<open>
  A comparator that \<open>sort\<close> can order by: any two elements are comparable, and the
  comparison is transitive.
\<close>

definition consistent :: "('a \<Rightarrow> 'a \<Rightarrow> int) \<Rightarrow> bool" where
  "consistent cmp \<longleftrightarrow>
     (\<forall>a b. cmp a b \<le> 0 \<or> cmp b a \<le> 0) \<and>
     (\<forall>a b c. cmp a b \<le> 0 \<longrightarrow> cmp b c \<le> 0 \<longrightarrow> cmp a c \<le> 0)"

fun commandMatrix :: "command \<Rightarrow> matrix" where
  "commandMatrix (FillRect m st rx ry rw rh) = m"
| "commandMatrix (DrawImage m img dx dy dw dh) = m"
| "commandMatrix (StrokeText m st lw fnt s tx ty) = m"
| "commandMatrix (FillText m st fnt s tx ty) = m"

fun isFillText :: "command \<Rightarrow> bool" where
  "isFillText (FillText m st fnt s tx ty) = True"
| "isFillText other = False"

fun isStrokeText :: "command \<Rightarrow> bool" where
  "isStrokeText (StrokeText m st lw fnt s tx ty) = True"
| "isStrokeText other = False"

fun isDrawImage :: "command \<Rightarrow> bool" where
  "isDrawImage (DrawImage m img dx dy dw dh) = True"
| "isDrawImage other = False"

text \<open>
  The per-half transform in the words of the specification: centre, rotate, scale, offset,
  and the centring translation undone.
\<close>

definition specHalfTransform :: "nat \<Rightarrow> Transform \<Rightarrow> matrix" where
  "specHalfTransform half_index t =
     translated (- (real half_index * 960 + 480)) (- 540)
       (translated (fst (position t)) (snd (position t))
         (scaled (scale t) (scale t)
           (rotated (rotation t * pi / 180)
             (translated (real half_index * 960 + 480) 540 identity))))"

definition identityTransform :: Transform where
  "identityTransform = \<lparr>rotation = 0, scale = 1, position = (0, 0)\<rparr>"

text \<open>A platform for the examples: comparison by character code, and every image but
  those at \<open>broken\<close> decodes, to 1920 by 1080 pixels.\<close>

fun codeCompare :: "string \<Rightarrow> string \<Rightarrow> int" where
  "codeCompare [] [] = 0"
| "codeCompare [] (y # ys) = - 1"
| "codeCompare (x # xs) [] = 1"
| "codeCompare (x # xs) (y # ys) =
     (if (of_char x :: nat) < of_char y then - 1
      else if (of_char y :: nat) < of_char x then 1
      else codeCompare xs ys)"

definition examplePlatform :: Platform where
  "examplePlatform =
     \<lparr>localeCompare = codeCompare,
      getContext = (\<lambda>k. True),
      loadImage = (\<lambda>k s u. if u = ''broken'' then None
                             else Some \<lparr>src = u, width = 1920, height = 1080\<rparr>),
      firstError = (\<lambda>k. LeftImage),
      measureText = (\<lambda>fnt s. 10 * real (length s)),
      numberToString = (\<lambda>v. ''48'')\<rparr>"

definition exampleOptions :: TextOptions where
  "exampleOptions =
     \<lparr>opt_enabled = True, opt_text = None, opt_font = ''Arial'', opt_size = 48,
      opt_bold = True, opt_italic = False, opt_color = None, opt_position = BottomRight,
      opt_stroke = False, opt_strokeColor = None, opt_strokeWidth = None\<rparr>"

text \<open>
  The matrix that the transformation calls of \<open>drawImage\<close> (lines 78 to 88) leave when
  they start from the matrix \<open>m\<close>, and the width and height of the cover fit.
\<close>

definition halfMatrix :: "real \<Rightarrow> Transform option \<Rightarrow> matrix \<Rightarrow> matrix" where
  "halfMatrix x tr m =
     translated (- 480) (- 540)
       (case tr of
          None \<Rightarrow> translated (x + 480) 540 m
        | Some t \<Rightarrow>
            translated (fst (position t)) (snd (position t))
              (scaled (scale t) (scale t)
                (rotated (rotation t * pi / 180) (translated (x + 480) 540 m))))"

definition coverWidth :: "Image \<Rightarrow> real" where
  "coverWidth img =
     (if real (width img) / real (height img) > 960 / 1080
      then 1080 * (real (width img) / real (height img)) else 960)"

definition coverHeight :: "Image \<Rightarrow> real" where
  "coverHeight img =
     (if real (width img) / real (height img) > 960 / 1080
      then 1080 else 960 / (real (width img) / real (height img)))"

text \<open>
  The commands that the text block (lines 117 to 156) issues on a canvas whose matrix is
  the identity: the outline when \<open>stroke\<close> is set, then the fill, at the same anchor.
\<close>

definition textCommands :: "Platform \<Rightarrow> TextOptions \<Rightarrow> command list" where
  "textCommands P t =
     (let s = orElse (opt_text t) [];
          anchor = textAnchor (opt_position t) (opt_size t) (measureText P (fontString P t) s)
      in (if opt_stroke t
          then [StrokeText identity (orElse (opt_strokeColor t) ''#FFFFFF'')
                  (orElseNumber (opt_strokeWidth t) 2) (fontString P t) s
                  (fst anchor) (snd anchor)]
          else []) @
         [FillText identity (orElse (opt_color t) ''#000000'') (fontString P t) s
            (fst anchor) (snd anchor)])"

definition exampleStore :: store where
  "exampleStore =
     [[\<lparr>name = ''Smith_John_01.jpg'', preview = ''blob:b2'', transform = None\<rparr>,
       \<lparr>name = ''Doe_Ann_01.jpg'', preview = ''blob:b1'',
        transform = Some \<lparr>rotation = 0, scale = 2, position = (10, 0)\<rparr>\<rparr>],
      [\<lparr>name = ''Smith_John_02.jpg'', preview = ''blob:c2'', transform = None\<rparr>,
       \<lparr>name = ''Zed_Zoe_02.jpg'', preview = ''blob:c3'', transform = None\<rparr>,
       \<lparr>name = ''Doe_Ann_02.jpg'', preview = ''blob:c1'', transform = None\<rparr>]]"

text \<open>Two stores with the same names, where the second, respectively the first, left
  photo does not decode.\<close>

definition secondBrokenStore :: store where
  "secondBrokenStore =
     [[\<lparr>name = ''Doe_Ann_01.jpg'', preview = ''blob:b1'', transform = None\<rparr>,
       \<lparr>name = ''Doe_Ann_01.jpg'', preview = ''broken'', transform = None\<rparr>],
      [\<lparr>name = ''Doe_Ann_02.jpg'', preview = ''blob:c1'', transform = None\<rparr>,
       \<lparr>name = ''Doe_Ann_02.jpg'', preview = ''blob:c2'', transform = None\<rparr>]]"

definition firstBrokenStore :: store where
  "firstBrokenStore =
     [[\<lparr>name = ''Doe_Ann_01.jpg'', preview = ''broken'', transform = None\<rparr>,
       \<lparr>name = ''Doe_Ann_01.jpg'', preview = ''blob:b1'', transform = None\<rparr>],
      [\<lparr>name = ''Doe_Ann_02.jpg'', preview = ''blob:c1'', transform = None\<rparr>,
       \<lparr>name = ''Doe_Ann_02.jpg'', preview = ''blob:c2'', transform = None\<rparr>]]"

text \<open>A pair with a zero and a negative scale, and a file name without underscore.\<close>

definition degenerateStore :: store where
  "degenerateStore =
     [[\<lparr>name = ''portrait.jpg'', preview = ''blob:b1'',
        transform = Some \<lparr>rotation = 0, scale = 0, position = (0, 0)\<rparr>\<rparr>],
      [\<lparr>name = ''after.jpg'', preview = ''blob:c1'',
        transform = Some \<lparr>rotation = 0, scale = - 1, position = (0, 0)\<rparr>\<rparr>]]"

section \<open>The display name\<close>

lemma splitFrom_not_Nil: "splitFrom sep acc s \<noteq> []"
  by (induction sep acc s rule: splitFrom.induct) auto

lemma hd_splitFrom: "sep \<noteq> [] \<Longrightarrow> hd (splitFrom sep acc s) = rev acc @ beforeFirst sep s"
  by (induction sep acc s rule: splitFrom.induct) auto

lemma tokens_not_Nil: "tokens d s \<noteq> []"
  by (induction d s rule: tokens.induct) (auto split: list.splits)

lemma splitFrom_tokens:
  "splitFrom [d] acc s = (rev acc @ hd (tokens d s)) # tl (tokens d s)"
  by (induction s arbitrary: acc) (auto split: list.splits simp: tokens_not_Nil)

lemma formattedName_not_empty: "formattedName fileName \<noteq> []"
  by (simp add: formattedName_def Let_def)

section \<open>Drawing one half\<close>

lemmas ctx_defs = ctx_save_def ctx_restore_def ctx_translate_def ctx_rotate_def ctx_scale_def
  ctx_setFillStyle_def ctx_setStrokeStyle_def ctx_setLineWidth_def ctx_setFont_def
  ctx_fillRect_def ctx_drawImage_def ctx_strokeText_def ctx_fillText_def

lemma drawImage_ops:
  "ops (drawImage img x tr c) =
     ops c @ [DrawImage (halfMatrix x tr (ctm (state c))) img
                (x + (960 - coverWidth img) / 2) ((1080 - coverHeight img) / 2)
                (coverWidth img) (coverHeight img)]"
proof -
  define r where "r = real (width img) / real (height img)"
  show ?thesis
    unfolding drawImage_def coverWidth_def coverHeight_def r_def[symmetric]
    by (cases tr) (simp_all add: Let_def ctx_defs halfMatrix_def canvas_width_def canvas_height_def)
qed

lemma drawImage_state: "state (drawImage img x tr c) = state c"
  by (cases tr; simp add: drawImage_def Let_def ctx_defs)

lemma drawImage_stack: "stack (drawImage img x tr c) = stack c"
  by (cases tr; simp add: drawImage_def Let_def ctx_defs)

section \<open>Sorting\<close>

lemma length_insertBy: "length (insertBy cmp v xs) = Suc (length xs)"
  by (induction xs) auto

lemma length_sortBy: "length (sortBy cmp xs) = length xs"
  by (induction xs) (auto simp: sortBy_def length_insertBy)

lemma mset_insertBy: "mset (insertBy cmp v xs) = add_mset v (mset xs)"
  by (induction xs) auto

lemma mset_sortBy: "mset (sortBy cmp xs) = mset xs"
  by (induction xs) (auto simp: sortBy_def mset_insertBy)

lemma set_insertBy: "set (insertBy cmp v xs) = insert v (set xs)"
  by (induction xs) auto

lemma sorted_insertBy:
  assumes "consistent cmp" "sorted_wrt (\<lambda>a b. cmp a b \<le> 0) xs"
  shows "sorted_wrt (\<lambda>a b. cmp a b \<le> 0) (insertBy cmp v xs)"
  using assms(2)
proof (induction xs)
  case Nil
  then show ?case by simp
next
  case (Cons y ys)
  have tot: "\<And>a b. \<not> cmp a b \<le> 0 \<Longrightarrow> cmp b a \<le> 0"
    using assms(1) unfolding consistent_def by blast
  have tr: "\<And>a b c. cmp a b \<le> 0 \<Longrightarrow> cmp b c \<le> 0 \<Longrightarrow> cmp a c \<le> 0"
    using assms(1) unfolding consistent_def by blast
  show ?case
  proof (cases "cmp v y \<le> 0")
    case True
    then show ?thesis using Cons.prems tr by auto
  next
    case False
    then show ?thesis using Cons tot by (auto simp: set_insertBy)
  qed
qed

lemma sorted_sortBy:
  "consistent cmp \<Longrightarrow> sorted_wrt (\<lambda>a b. cmp a b \<le> 0) (sortBy cmp xs)"
  by (induction xs) (auto simp: sortBy_def sorted_insertBy)

lemma consistent_byName: "consistent (localeCompare P) \<Longrightarrow> consistent (byName P)"
  unfolding consistent_def byName_def by blast

section \<open>The loop\<close>

declare forLoop.simps [simp del]

lemma forLoop_done:
  "\<not> i < n \<Longrightarrow> forLoop P h sb sc n g i results progress = (progress, Inr results)"
  by (subst forLoop.simps) simp

lemma forLoop_fail:
  "i < n \<Longrightarrow> pairResult P g (h ! sb) (h ! sc) i = Inl e
   \<Longrightarrow> forLoop P h sb sc n g i results progress = (progress, Inl e)"
  by (subst forLoop.simps) (simp add: pairResult_def Let_def)

lemma forLoop_step:
  "i < n \<Longrightarrow> pairResult P g (h ! sb) (h ! sc) i = Inr r
   \<Longrightarrow> forLoop P h sb sc n g i results progress
       = forLoop P h sb sc n g (i + 1) (results @ [r]) (progress @ [progressValue n i])"
  by (subst forLoop.simps) (simp add: pairResult_def Let_def progressValue_def)

text \<open>
  Every run of the loop from \<open>i\<close> completes the composites up to some \<open>k\<close>, reports
  one progress value for each of them, and either \<open>k\<close> is the total and the results are
  returned, or the composite \<open>k\<close> fails and its error is the outcome.
\<close>

lemma forLoop_run:
  assumes "i \<le> n"
  shows "\<exists>k. i \<le> k \<and> k \<le> n \<and>
           (\<forall>j. i \<le> j \<and> j < k \<longrightarrow> isl (pairResult P g (h ! sb) (h ! sc) j) = False) \<and>
           fst (forLoop P h sb sc n g i results progress)
             = progress @ map (progressValue n) [i..<k] \<and>
           (case snd (forLoop P h sb sc n g i results progress) of
              Inr rs \<Rightarrow> k = n \<and>
                rs = results @ map (\<lambda>j. projr (pairResult P g (h ! sb) (h ! sc) j)) [i..<n]
            | Inl e \<Rightarrow> k < n \<and> pairResult P g (h ! sb) (h ! sc) k = Inl e)"
  using assms
proof (induction P h sb sc n g i results progress rule: forLoop.induct)
  case (1 P h sb sc n g i results progress)
  show ?case
  proof (cases "i < n")
    case False
    with 1(2) have "i = n" by simp
    then show ?thesis by (intro exI[of _ n]) (auto simp: forLoop_done)
  next
    case True
    show ?thesis
    proof (cases "pairResult P g (h ! sb) (h ! sc) i")
      case (Inl e)
      then show ?thesis using True
        by (intro exI[of _ i]) (auto simp add: forLoop_fail)
    next
      case (Inr r)
      then have cr: "createCombinedImage P i (h ! sb ! i) (h ! sc ! i)
          (formattedName (name (h ! sb ! i)))
          (Some (textOpts g (formattedName (name (h ! sb ! i))))) = Inr r"
        by (simp add: pairResult_def)
      from True have "i + 1 \<le> n" by simp
      from "1.IH"[OF True refl cr this] obtain k where k: "i + 1 \<le> k" "k \<le> n"
        "\<forall>j. i + 1 \<le> j \<and> j < k \<longrightarrow> isl (pairResult P g (h ! sb) (h ! sc) j) = False"
        "fst (forLoop P h sb sc n g (i + 1) (results @ [r])
               (progress @ [real (i + 1) / real n * 100]))
           = (progress @ [real (i + 1) / real n * 100]) @ map (progressValue n) [i + 1..<k]"
        "(case snd (forLoop P h sb sc n g (i + 1) (results @ [r])
                     (progress @ [real (i + 1) / real n * 100])) of
              Inr rs \<Rightarrow> k = n \<and>
                rs = (results @ [r]) @
                     map (\<lambda>j. projr (pairResult P g (h ! sb) (h ! sc) j)) [i + 1..<n]
            | Inl e \<Rightarrow> k < n \<and> pairResult P g (h ! sb) (h ! sc) k = Inl e)"
        by blast
      have step: "forLoop P h sb sc n g i results progress
          = forLoop P h sb sc n g (i + 1) (results @ [r])
              (progress @ [real (i + 1) / real n * 100])"
        using forLoop_step[OF True Inr] by (simp add: progressValue_def)
      have ik: "i < k" using k(1) by simp
      have upt_k: "[i..<k] = i # [i + 1..<k]" using ik by (simp add: upt_conv_Cons)
      have upt_n: "[i..<n] = i # [i + 1..<n]" using True by (simp add: upt_conv_Cons)
      have a: "\<forall>j. i \<le> j \<and> j < k \<longrightarrow> isl (pairResult P g (h ! sb) (h ! sc) j) = False"
      proof (intro allI impI)
        fix j assume "i \<le> j \<and> j < k"
        then consider "j = i" | "i + 1 \<le> j \<and> j < k" by linarith
        then show "isl (pairResult P g (h ! sb) (h ! sc) j) = False"
          using Inr k(3) by cases auto
      qed
      show ?thesis
        apply (intro exI[of _ k])
        unfolding step
        using k(2,4,5) ik a Inr
        by (simp add: upt_k upt_n progressValue_def split: sum.splits)
    qed
  qed
qed

section \<open>One composite\<close>

lemma createCombinedImage_loaded:
  "getContext P k \<Longrightarrow> loadImage P k LeftImage (preview l) = Some li
   \<Longrightarrow> loadImage P k RightImage (preview r) = Some ri
   \<Longrightarrow> createCombinedImage P k l r nm topts
       = Inr (checkBothLoaded P li ri l r nm topts whiteCanvas)"
  by (simp add: createCombinedImage_def)

lemma createCombinedImage_Inr:
  "createCombinedImage P k l r nm topts = Inr res
   \<Longrightarrow> getContext P k \<and>
       (\<exists>li ri. loadImage P k LeftImage (preview l) = Some li \<and>
                loadImage P k RightImage (preview r) = Some ri \<and>
                res = checkBothLoaded P li ri l r nm topts whiteCanvas)"
  by (auto simp: createCombinedImage_def split: if_splits option.splits side.splits)

lemma createCombinedImage_failed:
  "getContext P k
   \<Longrightarrow> loadImage P k LeftImage (preview l) = None \<or> loadImage P k RightImage (preview r) = None
   \<Longrightarrow> (createCombinedImage P k l r nm topts = Inl (loadError LeftImage l) \<and>
          loadImage P k LeftImage (preview l) = None) \<or>
       (createCombinedImage P k l r nm topts = Inl (loadError RightImage r) \<and>
          loadImage P k RightImage (preview r) = None)"
  by (auto simp: createCombinedImage_def split: option.splits side.splits)

lemma checkBothLoaded_fields:
  "resultName (checkBothLoaded P li ri l r nm topts c) = nm"
  "leftPhoto (checkBothLoaded P li ri l r nm topts c) = preview l"
  "rightPhoto (checkBothLoaded P li ri l r nm topts c) = preview r"
  "resultTextOptions (checkBothLoaded P li ri l r nm topts c) = topts"
  "resultTransform (checkBothLoaded P li ri l r nm topts c) = (transform l, transform r)"
  by (simp_all add: checkBothLoaded_def Let_def)

lemma drawText_ops:
  "ctm (state c) = identity \<Longrightarrow> ops (drawText P t c) = ops c @ textCommands P t"
  by (simp add: drawText_def textCommands_def Let_def ctx_defs split: prod.splits)

lemma whiteCanvas_simps:
  "ops whiteCanvas = [FillRect identity ''#FFFFFF'' 0 0 1920 1080]"
  "ctm (state whiteCanvas) = identity"
  by (simp_all add: whiteCanvas_def newContext_def ctx_defs canvas_width_def canvas_height_def)

lemma checkBothLoaded_dataUrl:
  "dataUrl (checkBothLoaded P li ri l r nm topts whiteCanvas) =
     [FillRect identity ''#FFFFFF'' 0 0 1920 1080,
      DrawImage (halfMatrix 0 (transform l) identity) li
        ((960 - coverWidth li) / 2) ((1080 - coverHeight li) / 2)
        (coverWidth li) (coverHeight li),
      DrawImage (halfMatrix 960 (transform r) identity) ri
        (960 + (960 - coverWidth ri) / 2) ((1080 - coverHeight ri) / 2)
        (coverWidth ri) (coverHeight ri)] @
     (case topts of
        None \<Rightarrow> []
      | Some t \<Rightarrow> if opt_enabled t \<and> truthy (opt_text t) then textCommands P t else [])"
  by (cases topts)
     (simp_all add: checkBothLoaded_def Let_def drawImage_ops drawImage_state whiteCanvas_simps
        drawText_ops canvas_width_def)

lemma pairResult_loaded:
  assumes "getContext P i"
    and "loadImage P i LeftImage (preview (ls ! i)) \<noteq> None"
    and "loadImage P i RightImage (preview (rs ! i)) \<noteq> None"
  shows "\<exists>res. pairResult P g ls rs i = Inr res \<and>
           leftPhoto res = preview (ls ! i) \<and> rightPhoto res = preview (rs ! i) \<and>
           resultName res = formattedName (name (ls ! i))"
proof -
  from assms obtain li ri where
    "loadImage P i LeftImage (preview (ls ! i)) = Some li"
    "loadImage P i RightImage (preview (rs ! i)) = Some ri" by auto
  with assms(1) show ?thesis
    unfolding pairResult_def
    by (simp add: createCombinedImage_loaded checkBothLoaded_fields)
qed

section \<open>The store\<close>

lemma processImages_eq:
  assumes "currentPhotos < length h"
  shows "processImages P h babyPhotos currentPhotos g =
     (h @ [sortBy (byName P) (h ! babyPhotos), sortBy (byName P) (h ! currentPhotos)],
      forLoop P (h @ [sortBy (byName P) (h ! babyPhotos), sortBy (byName P) (h ! currentPhotos)])
        (length h) (length h + 1)
        (min (length (h ! babyPhotos)) (length (h ! currentPhotos))) g 0 [] [])"
  using assms
  by (simp add: processImages_def spread_def sortInPlace_def Let_def nth_append
      list_update_append)

lemma store_prefix:
  "take (length h) (fst (processImages P h babyPhotos currentPhotos g)) = h"
  by (simp add: processImages_def spread_def sortInPlace_def Let_def list_update_append
      split: prod.splits)

section \<open>The example platform\<close>

lemma codeCompare_Nil_le: "codeCompare [] b \<le> 0"
  by (cases b) simp_all

lemma codeCompare_Cons_le:
  "codeCompare (x # xs) (y # ys) \<le> 0 \<longleftrightarrow>
     (of_char x :: nat) < of_char y \<or>
     ((of_char x :: nat) = of_char y \<and> codeCompare xs ys \<le> 0)"
  by auto

lemma codeCompare_total: "codeCompare a b \<le> 0 \<or> codeCompare b a \<le> 0"
  by (induction a b rule: codeCompare.induct) auto

lemma codeCompare_trans:
  "codeCompare a b \<le> 0 \<Longrightarrow> codeCompare b c \<le> 0 \<Longrightarrow> codeCompare a c \<le> 0"
proof (induction a arbitrary: b c)
  case Nil
  show ?case by (rule codeCompare_Nil_le)
next
  case (Cons x xs)
  from Cons.prems(1) obtain y ys where b: "b = y # ys" by (cases b) simp_all
  from Cons.prems(2) b obtain z zs where c: "c = z # zs" by (cases c) simp_all
  from Cons.prems(1) have xy: "(of_char x :: nat) < of_char y \<or>
      ((of_char x :: nat) = of_char y \<and> codeCompare xs ys \<le> 0)"
    unfolding b codeCompare_Cons_le .
  from Cons.prems(2) have yz: "(of_char y :: nat) < of_char z \<or>
      ((of_char y :: nat) = of_char z \<and> codeCompare ys zs \<le> 0)"
    unfolding b c codeCompare_Cons_le .
  have "(of_char x :: nat) < of_char z \<or>
      ((of_char x :: nat) = of_char z \<and> codeCompare xs zs \<le> 0)"
    using xy yz Cons.IH[of ys zs] by linarith
  then show ?case unfolding c codeCompare_Cons_le .
qed

lemma consistent_codeCompare: "consistent codeCompare"
  unfolding consistent_def using codeCompare_total codeCompare_trans by blast

lemmas eval_defs = processImages_def spread_def sortInPlace_def sortBy_def byName_def
  examplePlatform_def exampleOptions_def forLoop.simps createCombinedImage_def
  checkBothLoaded_def drawImage_ops drawImage_state drawText_def fontString_def textOpts_def
  whiteCanvas_def newContext_def ctx_defs halfMatrix_def coverWidth_def coverHeight_def
  formattedName_def nameParts_def split_def at_index_def template_def truthy_def orElse_def
  orElseNumber_def loadError_def canvas_width_def canvas_height_def identity_def Let_def

lemma example_sorted_left:
  "sortBy (byName examplePlatform) (exampleStore ! 0) =
     [\<lparr>name = ''Doe_Ann_01.jpg'', preview = ''blob:b1'',
       transform = Some \<lparr>rotation = 0, scale = 2, position = (10, 0)\<rparr>\<rparr>,
      \<lparr>name = ''Smith_John_01.jpg'', preview = ''blob:b2'', transform = None\<rparr>]"
  by (simp add: sortBy_def byName_def examplePlatform_def exampleStore_def)

lemma example_sorted_right:
  "sortBy (byName examplePlatform) (exampleStore ! 1) =
     [\<lparr>name = ''Doe_Ann_02.jpg'', preview = ''blob:c1'', transform = None\<rparr>,
      \<lparr>name = ''Smith_John_02.jpg'', preview = ''blob:c2'', transform = None\<rparr>,
      \<lparr>name = ''Zed_Zoe_02.jpg'', preview = ''blob:c3'', transform = None\<rparr>]"
  by (simp add: sortBy_def byName_def examplePlatform_def exampleStore_def)

lemma example_platform_loads:
  "getContext examplePlatform i"
  "u \<noteq> ''broken'' \<Longrightarrow> loadImage examplePlatform i s u \<noteq> None"
  "localeCompare examplePlatform = codeCompare"
  by (simp_all add: examplePlatform_def)

lemma example_lengths: "length exampleStore = 2" "length (exampleStore ! 0) = 2"
  "length (exampleStore ! 1) = 3"
  by (simp_all add: exampleStore_def)

lemma mapPoint_identity: "mapPoint identity p = p"
  by (cases p) (simp add: identity_def)

lemma last_ops_drawImage:
  "commandMatrix (last (ops (drawImage img x tr c))) = halfMatrix x tr (ctm (state c))"
  by (simp add: drawImage_ops)

lemma halfMatrix_scale:
  "mapPoint (halfMatrix x (Some (t\<lparr>scale := s\<rparr>)) m) p =
     (fst (mapPoint m (x + 480, 540)) +
        s * (fst (mapPoint (halfMatrix x (Some (t\<lparr>scale := 1\<rparr>)) m) p) -
             fst (mapPoint m (x + 480, 540))),
      snd (mapPoint m (x + 480, 540)) +
        s * (snd (mapPoint (halfMatrix x (Some (t\<lparr>scale := 1\<rparr>)) m) p) -
             snd (mapPoint m (x + 480, 540))))"
  by (cases m; cases p) (simp add: halfMatrix_def algebra_simps)

lemma halfMatrix_left: "halfMatrix 0 (Some t) identity = specHalfTransform 0 t"
  by (simp add: halfMatrix_def specHalfTransform_def)

section \<open>Progress values and text commands\<close>

lemma progress_sorted:
  assumes "k \<le> n"
  shows "sorted_wrt (<) (map (progressValue n) [0..<k])"
proof (cases "n = 0")
  case True
  with assms show ?thesis by simp
next
  case False
  then have "\<And>i j. i < j \<Longrightarrow> progressValue n i < progressValue n j"
    by (simp add: progressValue_def divide_strict_right_mono)
  then have "sorted_wrt (\<lambda>i j. progressValue n i < progressValue n j) [0..<k]"
    using sorted_wrt_mono_rel[of "[0..<k]" "(<)" "\<lambda>i j. progressValue n i < progressValue n j"]
    by simp
  then show ?thesis by (simp add: sorted_wrt_map)
qed

lemma progress_bounds:
  assumes "i < n"
  shows "0 \<le> progressValue n i \<and> progressValue n i \<le> 100"
  using assms by (simp add: progressValue_def field_simps)

lemma progress_last: "0 < n \<Longrightarrow> last (map (progressValue n) [0..<n]) = 100"
  by (cases n) (simp_all add: progressValue_def last_map del: upt_Suc)

lemma processImages_loop:
  "\<exists>h' sb sc. snd (processImages P h babyPhotos currentPhotos g) =
      forLoop P h' sb sc (min (length (h ! babyPhotos)) (length (h ! currentPhotos))) g 0 [] []"
  by (auto simp add: processImages_def Let_def split: prod.splits)

lemma example_run_progress:
  "fst (snd (processImages examplePlatform exampleStore 0 1 exampleOptions)) = [50, 100]"
  by (simp add: eval_defs exampleStore_def)

lemma example_run_succeeds:
  "snd (snd (processImages examplePlatform exampleStore 0 1 exampleOptions)) =
     Inr (projr (snd (snd (processImages examplePlatform exampleStore 0 1 exampleOptions))))"
  by (simp add: eval_defs exampleStore_def)

lemma filter_textCommands:
  "filter isFillText (textCommands P t) =
     [FillText identity (orElse (opt_color t) ''#000000'') (fontString P t) (orElse (opt_text t) [])
        (fst (textAnchor (opt_position t) (opt_size t)
               (measureText P (fontString P t) (orElse (opt_text t) []))))
        (snd (textAnchor (opt_position t) (opt_size t)
               (measureText P (fontString P t) (orElse (opt_text t) []))))]"
  "filter isStrokeText (textCommands P t) =
     (if opt_stroke t
      then [StrokeText identity (orElse (opt_strokeColor t) ''#FFFFFF'')
              (orElseNumber (opt_strokeWidth t) 2) (fontString P t) (orElse (opt_text t) [])
              (fst (textAnchor (opt_position t) (opt_size t)
                     (measureText P (fontString P t) (orElse (opt_text t) []))))
              (snd (textAnchor (opt_position t) (opt_size t)
                     (measureText P (fontString P t) (orElse (opt_text t) []))))]
      else [])"
  "filter isDrawImage (textCommands P t) = []"
  by (simp_all add: textCommands_def Let_def)

lemma textAnchor_cases:
  "textAnchor pos sizePx textWidth =
     (case pos of
        TopLeft \<Rightarrow> (20, sizePx + 20)
      | TopRight \<Rightarrow> (1920 - textWidth - 20, sizePx + 20)
      | BottomLeft \<Rightarrow> (20, 1080 - 20)
      | BottomRight \<Rightarrow> (1920 - textWidth - 20, 1080 - 20))"
  by (cases pos) (simp_all add: canvas_width_def canvas_height_def)

section \<open>The claims\<close>

text \<open>
  C1. Whenever every paired photo decodes on a canvas that has a context,
  \<open>processImages\<close> returns exactly \<open>min(|left|, |right|)\<close> results; result \<open>i\<close> is the
  composite of the \<open>i\<close>-th photo of the left collection and the \<open>i\<close>-th photo of the
  right collection, each collection sorted on its own by name with \<open>localeCompare\<close>
  (ascending, a rearrangement of the input), so the photos of the longer collection past
  the shorter length are dropped.
\<close>

theorem processImages_pairs_sorted:
  assumes refs: "babyPhotos < length h \<and> currentPhotos < length h"
    and cmp: "consistent (localeCompare P)"
    and ok: "\<forall>i < min (length (h ! babyPhotos)) (length (h ! currentPhotos)).
               getContext P i \<and>
               loadImage P i LeftImage (preview (sortBy (byName P) (h ! babyPhotos) ! i)) \<noteq> None \<and>
               loadImage P i RightImage (preview (sortBy (byName P) (h ! currentPhotos) ! i)) \<noteq> None"
  shows "\<exists>results.
           snd (snd (processImages P h babyPhotos currentPhotos g)) = Inr results \<and>
           length results = min (length (h ! babyPhotos)) (length (h ! currentPhotos)) \<and>
           (\<forall>i < length results.
              pairResult P g (sortBy (byName P) (h ! babyPhotos))
                (sortBy (byName P) (h ! currentPhotos)) i = Inr (results ! i) \<and>
              leftPhoto (results ! i) = preview (sortBy (byName P) (h ! babyPhotos) ! i) \<and>
              rightPhoto (results ! i) = preview (sortBy (byName P) (h ! currentPhotos) ! i) \<and>
              resultName (results ! i) =
                formattedName (name (sortBy (byName P) (h ! babyPhotos) ! i))) \<and>
           sorted_wrt (\<lambda>a b. localeCompare P (name a) (name b) \<le> 0)
             (sortBy (byName P) (h ! babyPhotos)) \<and>
           mset (sortBy (byName P) (h ! babyPhotos)) = mset (h ! babyPhotos) \<and>
           sorted_wrt (\<lambda>a b. localeCompare P (name a) (name b) \<le> 0)
             (sortBy (byName P) (h ! currentPhotos)) \<and>
           mset (sortBy (byName P) (h ! currentPhotos)) = mset (h ! currentPhotos)"
proof -
  define ls where "ls = sortBy (byName P) (h ! babyPhotos)"
  define rs where "rs = sortBy (byName P) (h ! currentPhotos)"
  define n where "n = min (length (h ! babyPhotos)) (length (h ! currentPhotos))"
  define h' where "h' = h @ [ls, rs]"
  have run: "snd (processImages P h babyPhotos currentPhotos g)
      = forLoop P h' (length h) (length h + 1) n g 0 [] []"
    using refs by (simp add: processImages_eq ls_def rs_def n_def h'_def)
  have hl: "h' ! length h = ls" and hr: "h' ! (length h + 1) = rs"
    by (simp_all add: h'_def nth_append)
  have loaded: "\<exists>res. pairResult P g ls rs i = Inr res \<and>
           leftPhoto res = preview (ls ! i) \<and> rightPhoto res = preview (rs ! i) \<and>
           resultName res = formattedName (name (ls ! i))" if "i < n" for i
    using ok that pairResult_loaded[of P i ls rs g] unfolding ls_def rs_def n_def by blast
  obtain k where k: "k \<le> n"
    "case snd (forLoop P h' (length h) (length h + 1) n g 0 [] []) of
       Inr res \<Rightarrow> k = n \<and> res = [] @ map (\<lambda>j. projr (pairResult P g ls rs j)) [0..<n]
     | Inl e \<Rightarrow> k < n \<and> pairResult P g ls rs k = Inl e"
    using forLoop_run[of 0 n P g h' "length h" "length h + 1" "[]" "[]"] unfolding hl hr by auto
  have res: "snd (forLoop P h' (length h) (length h + 1) n g 0 [] [])
      = Inr (map (\<lambda>j. projr (pairResult P g ls rs j)) [0..<n])"
  proof (cases "snd (forLoop P h' (length h) (length h + 1) n g 0 [] [])")
    case (Inl e)
    with k(2) have "k < n" "pairResult P g ls rs k = Inl e" by simp_all
    with loaded[of k] show ?thesis by auto
  next
    case (Inr res)
    with k(2) show ?thesis by simp
  qed
  have srt: "sorted_wrt (\<lambda>a b. localeCompare P (name a) (name b) \<le> 0) (sortBy (byName P) xs)"
    for xs
    using sorted_sortBy[OF consistent_byName[OF cmp], of xs] by (simp add: byName_def)
  show ?thesis
    unfolding ls_def[symmetric] rs_def[symmetric] n_def[symmetric]
  proof (intro exI[of _ "map (\<lambda>j. projr (pairResult P g ls rs j)) [0..<n]"] conjI allI impI)
    show "snd (snd (processImages P h babyPhotos currentPhotos g)) =
        Inr (map (\<lambda>j. projr (pairResult P g ls rs j)) [0..<n])"
      using run res by simp
  next
    fix i assume "i < length (map (\<lambda>j. projr (pairResult P g ls rs j)) [0..<n])"
    then have i: "i < n" by simp
    from loaded[OF i] obtain r where r: "pairResult P g ls rs i = Inr r"
      "leftPhoto r = preview (ls ! i)" "rightPhoto r = preview (rs ! i)"
      "resultName r = formattedName (name (ls ! i))" by blast
    have nth: "map (\<lambda>j. projr (pairResult P g ls rs j)) [0..<n] ! i = r"
      using i r(1) by simp
    show "pairResult P g ls rs i = Inr (map (\<lambda>j. projr (pairResult P g ls rs j)) [0..<n] ! i)"
      unfolding nth by (rule r(1))
    show "leftPhoto (map (\<lambda>j. projr (pairResult P g ls rs j)) [0..<n] ! i) = preview (ls ! i)"
      unfolding nth by (rule r(2))
    show "rightPhoto (map (\<lambda>j. projr (pairResult P g ls rs j)) [0..<n] ! i) = preview (rs ! i)"
      unfolding nth by (rule r(3))
    show "resultName (map (\<lambda>j. projr (pairResult P g ls rs j)) [0..<n] ! i)
        = formattedName (name (ls ! i))"
      unfolding nth by (rule r(4))
  qed (simp_all add: ls_def rs_def srt mset_sortBy)
qed

theorem processImages_pairs_sorted_witness:
  "((0::nat) < length exampleStore \<and> (1::nat) < length exampleStore) \<and>
   consistent (localeCompare examplePlatform) \<and>
   (\<exists>results.
      snd (snd (processImages examplePlatform exampleStore 0 1 exampleOptions)) = Inr results \<and>
      length results = 2 \<and>
      leftPhoto (results ! 0) = ''blob:b1'' \<and> rightPhoto (results ! 0) = ''blob:c1'' \<and>
      resultName (results ! 0) = ''Ann Doe'' \<and>
      leftPhoto (results ! 1) = ''blob:b2'' \<and> rightPhoto (results ! 1) = ''blob:c2'' \<and>
      resultName (results ! 1) = ''John Smith'')"
proof -
  have refs: "(0::nat) < length exampleStore \<and> (1::nat) < length exampleStore"
    by (simp add: example_lengths)
  have cmp: "consistent (localeCompare examplePlatform)"
    by (simp add: example_platform_loads consistent_codeCompare)
  have ok: "\<forall>i < min (length (exampleStore ! 0)) (length (exampleStore ! 1)).
      getContext examplePlatform i \<and>
      loadImage examplePlatform i LeftImage
        (preview (sortBy (byName examplePlatform) (exampleStore ! 0) ! i)) \<noteq> None \<and>
      loadImage examplePlatform i RightImage
        (preview (sortBy (byName examplePlatform) (exampleStore ! 1) ! i)) \<noteq> None"
    unfolding example_sorted_left example_sorted_right example_lengths
    by (simp add: examplePlatform_def less_Suc_eq numeral_2_eq_2)
  from processImages_pairs_sorted[OF refs cmp ok, of exampleOptions]
  obtain results where r:
    "snd (snd (processImages examplePlatform exampleStore 0 1 exampleOptions)) = Inr results"
    "length results = min (length (exampleStore ! 0)) (length (exampleStore ! 1))"
    "\<forall>i < length results.
       pairResult examplePlatform exampleOptions (sortBy (byName examplePlatform) (exampleStore ! 0))
         (sortBy (byName examplePlatform) (exampleStore ! 1)) i = Inr (results ! i) \<and>
       leftPhoto (results ! i) = preview (sortBy (byName examplePlatform) (exampleStore ! 0) ! i) \<and>
       rightPhoto (results ! i) = preview (sortBy (byName examplePlatform) (exampleStore ! 1) ! i) \<and>
       resultName (results ! i) =
         formattedName (name (sortBy (byName examplePlatform) (exampleStore ! 0) ! i))"
    by blast
  have len: "length results = 2" using r(2) unfolding example_lengths by simp
  have r0: "leftPhoto (results ! 0) = ''blob:b1'' \<and> rightPhoto (results ! 0) = ''blob:c1'' \<and>
      resultName (results ! 0) = ''Ann Doe''"
    using r(3)[rule_format, of 0] len unfolding example_sorted_left example_sorted_right
    by (simp add: formattedName_def nameParts_def split_def at_index_def template_def)
  have r1: "leftPhoto (results ! 1) = ''blob:b2'' \<and> rightPhoto (results ! 1) = ''blob:c2'' \<and>
      resultName (results ! 1) = ''John Smith''"
    using r(3)[rule_format, of 1] len unfolding example_sorted_left example_sorted_right
    by (simp add: formattedName_def nameParts_def split_def at_index_def template_def)
  show ?thesis using refs cmp r(1) len r0 r1 by blast
qed

text \<open>
  C2. For a photo of positive width and height drawn into a half whose left edge is \<open>x\<close>,
  \<open>drawImage\<close> hands the canvas the cover-fit rectangle: with \<open>r\<close> the ratio of width
  to height, the width is \<open>1080 r\<close> and the height 1080 if \<open>r > 960/1080\<close>, else the
  width is 960 and the height \<open>960 / r\<close>; its corner is
  \<open>(x + (960 - width) / 2, (1080 - height) / 2)\<close>. Whatever the transform, the identity
  included, the rectangle keeps the ratio \<open>r\<close>, has width 960 or height 1080, covers
  960 by 1080, and its centre has the coordinates \<open>(x + 480, 540)\<close>.
\<close>

theorem drawImage_cover_fit:
  assumes "0 < width img" and "0 < height img"
  shows "let r = real (width img) / real (height img);
             drawWidth = (if r > 960 / 1080 then 1080 * r else 960);
             drawHeight = (if r > 960 / 1080 then 1080 else 960 / r);
             drawX = x + (960 - drawWidth) / 2;
             drawY = (1080 - drawHeight) / 2
         in ops (drawImage img x tr c) =
              ops c @ [DrawImage (halfMatrix x tr (ctm (state c))) img
                         drawX drawY drawWidth drawHeight] \<and>
            drawWidth / drawHeight = r \<and>
            (drawWidth = 960 \<or> drawHeight = 1080) \<and>
            960 \<le> drawWidth \<and> 1080 \<le> drawHeight \<and>
            (drawX + drawWidth / 2, drawY + drawHeight / 2) = (x + 480, 540)"
proof -
  define r where "r = real (width img) / real (height img)"
  define dw where "dw = (if r > 960 / 1080 then 1080 * r else 960)"
  define dh where "dh = (if r > 960 / 1080 then 1080 else 960 / r)"
  have rpos: "0 < r" using assms by (simp add: r_def)
  have cw: "coverWidth img = dw"
    by (simp add: coverWidth_def r_def dw_def)
  have ch: "coverHeight img = dh"
    by (simp add: coverHeight_def r_def dh_def)
  have ops: "ops (drawImage img x tr c) =
     ops c @ [DrawImage (halfMatrix x tr (ctm (state c))) img
                (x + (960 - dw) / 2) ((1080 - dh) / 2) dw dh]"
    using drawImage_ops[of img x tr c] by (simp only: cw ch)
  have ratio: "dw / dh = r"
    using rpos by (simp add: dw_def dh_def)
  have touch: "dw = 960 \<or> dh = 1080"
    by (simp add: dw_def dh_def)
  have big: "960 \<le> dw"
    by (simp add: dw_def)
  have tall: "1080 \<le> dh"
    using rpos by (simp add: dh_def field_simps)
  have centre: "(x + (960 - dw) / 2 + dw / 2, (1080 - dh) / 2 + dh / 2) = (x + 480, 540)"
    by (simp add: field_simps)
  show ?thesis
    unfolding Let_def r_def[symmetric] dw_def[symmetric] dh_def[symmetric]
    using ops ratio touch big tall centre by blast
qed

theorem drawImage_cover_fit_witness:
  "0 < width \<lparr>src = ''a'', width = 1920, height = 1080\<rparr> \<and>
   0 < height \<lparr>src = ''a'', width = 1920, height = 1080\<rparr> \<and>
   ops (drawImage \<lparr>src = ''a'', width = 1920, height = 1080\<rparr> 960 None newContext) =
     [DrawImage (halfMatrix 960 None identity) \<lparr>src = ''a'', width = 1920, height = 1080\<rparr>
        480 0 1920 1080]"
  using drawImage_cover_fit[of "\<lparr>src = ''a'', width = 1920, height = 1080\<rparr>" 960 None
      newContext]
  by (simp add: newContext_def)

text \<open>
  C3. The claim has the per-half transform end with the centring translation undone. The
  code ends with a translation by \<open>(-480, -540)\<close> for both halves, which undoes the
  centring \<open>(x + 480, 540)\<close> of the left half only. For the right half and the identity
  transform the matrix in force at \<open>ctx.drawImage\<close> is the translation by \<open>(960, 0)\<close>
  where the claim's sequence gives the identity: a 960 by 1080 photo, whose rectangle
  starts at \<open>x = 960\<close>, is painted from \<open>x = 1920\<close> on, beyond the canvas. On the left
  half the code and the claim agree.
\<close>

theorem right_half_not_recentred:
  "ops (drawImage \<lparr>src = ''right'', width = 960, height = 1080\<rparr> 960
          (Some identityTransform) newContext)
     = [DrawImage (Matrix 1 0 0 1 960 0) \<lparr>src = ''right'', width = 960, height = 1080\<rparr>
          960 0 960 1080] \<and>
   mapPoint (Matrix 1 0 0 1 960 0) (960, 0) = (1920, 0) \<and>
   specHalfTransform 1 identityTransform = Matrix 1 0 0 1 0 0 \<and>
   ops (drawImage \<lparr>src = ''left'', width = 960, height = 1080\<rparr> 0
          (Some identityTransform) newContext)
     = [DrawImage (specHalfTransform 0 identityTransform)
          \<lparr>src = ''left'', width = 960, height = 1080\<rparr> 0 0 960 1080]"
  by (simp add: drawImage_ops halfMatrix_def coverWidth_def coverHeight_def newContext_def
      identity_def identityTransform_def specHalfTransform_def)

text \<open>
  C4. The display name of a pair is derived from the file name of the left photo: the part
  before the first \<open>_01\<close> is cut at every underscore, token 0 is the last name, token 1
  the first name, and the name is the first name, a space and the last name (a missing
  token reads \<open>undefined\<close>). \<open>Smith_John_01.jpg\<close> gives \<open>John Smith\<close>.
\<close>

theorem display_name_derivation:
  "formattedName fileName = specDisplayName fileName \<and>
   formattedName ''Smith_John_01.jpg'' = ''John Smith''"
proof
  show "formattedName fileName = specDisplayName fileName"
    using splitFrom_not_Nil[of "''_01''" "[]" fileName]
      hd_splitFrom[of "''_01''" "[]" fileName]
      splitFrom_tokens[of "CHR ''_''" "[]" "beforeFirst ''_01'' fileName"]
      tokens_not_Nil[of "CHR ''_''" "beforeFirst ''_01'' fileName"]
    by (auto simp: formattedName_def specDisplayName_def nameParts_def split_def Let_def
        split: list.splits)
  show "formattedName ''Smith_John_01.jpg'' = ''John Smith''"
    by (simp add: formattedName_def nameParts_def split_def at_index_def template_def)
qed

text \<open>
  C5, as the code has it. If the photos of the pairs before index \<open>k\<close> decode and a
  photo of pair \<open>k\<close> does not, the batch fails with a single error whose message names
  the failing side and the file name of the photo of pair \<open>k\<close> on that side (it carries
  no pair index). The outcome is that error alone: no result is returned for any index and
  no placeholder is substituted. Before the failure \<open>onProgress\<close> was called exactly
  \<open>k\<close> times, with \<open>(i + 1) / total * 100\<close> for \<open>i < k\<close>.
\<close>

theorem decode_failure_rejects:
  assumes refs: "babyPhotos < length h \<and> currentPhotos < length h"
    and k: "k < min (length (h ! babyPhotos)) (length (h ! currentPhotos))"
    and before: "\<forall>i < k.
               getContext P i \<and>
               loadImage P i LeftImage (preview (sortBy (byName P) (h ! babyPhotos) ! i)) \<noteq> None \<and>
               loadImage P i RightImage (preview (sortBy (byName P) (h ! currentPhotos) ! i)) \<noteq> None"
    and ctx: "getContext P k"
    and fails: "loadImage P k LeftImage (preview (sortBy (byName P) (h ! babyPhotos) ! k)) = None \<or>
                loadImage P k RightImage (preview (sortBy (byName P) (h ! currentPhotos) ! k)) = None"
  shows "fst (snd (processImages P h babyPhotos currentPhotos g)) =
           map (\<lambda>i. real (i + 1) /
                  real (min (length (h ! babyPhotos)) (length (h ! currentPhotos))) * 100) [0..<k] \<and>
         ((snd (snd (processImages P h babyPhotos currentPhotos g)) =
             Inl (Error (''Failed to load left image: '' @
                           name (sortBy (byName P) (h ! babyPhotos) ! k))) \<and>
           loadImage P k LeftImage (preview (sortBy (byName P) (h ! babyPhotos) ! k)) = None) \<or>
          (snd (snd (processImages P h babyPhotos currentPhotos g)) =
             Inl (Error (''Failed to load right image: '' @
                           name (sortBy (byName P) (h ! currentPhotos) ! k))) \<and>
           loadImage P k RightImage (preview (sortBy (byName P) (h ! currentPhotos) ! k)) = None))"
proof -
  define ls where "ls = sortBy (byName P) (h ! babyPhotos)"
  define rs where "rs = sortBy (byName P) (h ! currentPhotos)"
  define n where "n = min (length (h ! babyPhotos)) (length (h ! currentPhotos))"
  define h' where "h' = h @ [ls, rs]"
  have run: "snd (processImages P h babyPhotos currentPhotos g)
      = forLoop P h' (length h) (length h + 1) n g 0 [] []"
    using refs by (simp add: processImages_eq ls_def rs_def n_def h'_def)
  have hl: "h' ! length h = ls" and hr: "h' ! (length h + 1) = rs"
    by (simp_all add: h'_def nth_append)
  have loaded: "isl (pairResult P g ls rs i) = False" if "i < k" for i
    using before that pairResult_loaded[of P i ls rs g] unfolding ls_def rs_def by auto
  have failed:
    "(pairResult P g ls rs k = Inl (loadError LeftImage (ls ! k)) \<and>
      loadImage P k LeftImage (preview (ls ! k)) = None) \<or>
     (pairResult P g ls rs k = Inl (loadError RightImage (rs ! k)) \<and>
      loadImage P k RightImage (preview (rs ! k)) = None)"
    unfolding pairResult_def
    using createCombinedImage_failed[OF ctx, of "ls ! k" "rs ! k"] fails
    unfolding ls_def rs_def by blast
  then have isl_k: "isl (pairResult P g ls rs k)" by auto
  obtain j where j: "j \<le> n"
    "\<forall>i. 0 \<le> i \<and> i < j \<longrightarrow> isl (pairResult P g ls rs i) = False"
    "fst (forLoop P h' (length h) (length h + 1) n g 0 [] []) = map (progressValue n) [0..<j]"
    "case snd (forLoop P h' (length h) (length h + 1) n g 0 [] []) of
       Inr res \<Rightarrow> j = n \<and> res = [] @ map (\<lambda>i. projr (pairResult P g ls rs i)) [0..<n]
     | Inl e \<Rightarrow> j < n \<and> pairResult P g ls rs j = Inl e"
    using forLoop_run[of 0 n P g h' "length h" "length h + 1" "[]" "[]"] unfolding hl hr by auto
  have jk: "j \<le> k"
  proof (rule ccontr)
    assume "\<not> j \<le> k"
    then have "k < j" by simp
    with j(2) isl_k show False by auto
  qed
  with k have jn: "j < n" unfolding n_def by simp
  obtain e where e: "snd (forLoop P h' (length h) (length h + 1) n g 0 [] []) = Inl e"
    "pairResult P g ls rs j = Inl e"
    using j(4) jn by (cases "snd (forLoop P h' (length h) (length h + 1) n g 0 [] [])") auto
  have "j = k"
  proof (rule ccontr)
    assume "j \<noteq> k"
    with jk have "j < k" by simp
    from loaded[OF this] e(2) show False by simp
  qed
  with e failed have out:
    "(snd (snd (processImages P h babyPhotos currentPhotos g)) = Inl (loadError LeftImage (ls ! k)) \<and>
      loadImage P k LeftImage (preview (ls ! k)) = None) \<or>
     (snd (snd (processImages P h babyPhotos currentPhotos g)) = Inl (loadError RightImage (rs ! k)) \<and>
      loadImage P k RightImage (preview (rs ! k)) = None)"
    unfolding run by auto
  have prog: "fst (snd (processImages P h babyPhotos currentPhotos g)) =
      map (\<lambda>i. real (i + 1) / real n * 100) [0..<k]"
    unfolding run j(3) \<open>j = k\<close> by (simp add: progressValue_def)
  show ?thesis
    unfolding ls_def[symmetric] rs_def[symmetric] n_def[symmetric]
    using prog out by (simp add: loadError_def)
qed

theorem decode_failure_rejects_witness:
  "((0::nat) < length secondBrokenStore \<and> (1::nat) < length secondBrokenStore) \<and>
   (1::nat) < min (length (secondBrokenStore ! 0)) (length (secondBrokenStore ! 1)) \<and>
   getContext examplePlatform 1 \<and>
   loadImage examplePlatform 1 LeftImage
     (preview (sortBy (byName examplePlatform) (secondBrokenStore ! 0) ! 1)) = None \<and>
   fst (snd (processImages examplePlatform secondBrokenStore 0 1 exampleOptions)) = [50] \<and>
   snd (snd (processImages examplePlatform secondBrokenStore 0 1 exampleOptions)) =
     Inl (Error ''Failed to load left image: Doe_Ann_01.jpg'')"
proof -
  have sl: "sortBy (byName examplePlatform) (secondBrokenStore ! 0) = secondBrokenStore ! 0"
    by (simp add: sortBy_def byName_def examplePlatform_def secondBrokenStore_def)
  have sr: "sortBy (byName examplePlatform) (secondBrokenStore ! 1) = secondBrokenStore ! 1"
    by (simp add: sortBy_def byName_def examplePlatform_def secondBrokenStore_def)
  have refs: "(0::nat) < length secondBrokenStore \<and> (1::nat) < length secondBrokenStore"
    by (simp add: secondBrokenStore_def)
  have k: "(1::nat) < min (length (secondBrokenStore ! 0)) (length (secondBrokenStore ! 1))"
    by (simp add: secondBrokenStore_def)
  have before: "\<forall>i < (1::nat).
      getContext examplePlatform i \<and>
      loadImage examplePlatform i LeftImage
        (preview (sortBy (byName examplePlatform) (secondBrokenStore ! 0) ! i)) \<noteq> None \<and>
      loadImage examplePlatform i RightImage
        (preview (sortBy (byName examplePlatform) (secondBrokenStore ! 1) ! i)) \<noteq> None"
    unfolding sl sr by (simp add: examplePlatform_def secondBrokenStore_def)
  have ctx: "getContext examplePlatform 1" by (simp add: examplePlatform_def)
  have fl: "loadImage examplePlatform 1 LeftImage
     (preview (sortBy (byName examplePlatform) (secondBrokenStore ! 0) ! 1)) = None"
    unfolding sl by (simp add: examplePlatform_def secondBrokenStore_def)
  have fr: "loadImage examplePlatform 1 RightImage
     (preview (sortBy (byName examplePlatform) (secondBrokenStore ! 1) ! 1)) \<noteq> None"
    unfolding sr by (simp add: examplePlatform_def secondBrokenStore_def)
  have nm: "name (sortBy (byName examplePlatform) (secondBrokenStore ! 0) ! 1) = ''Doe_Ann_01.jpg''"
    unfolding sl by (simp add: secondBrokenStore_def)
  have n2: "min (length (secondBrokenStore ! 0)) (length (secondBrokenStore ! 1)) = 2"
    by (simp add: secondBrokenStore_def)
  note run = decode_failure_rejects[OF refs k before ctx disjI1[OF fl], of exampleOptions,
      unfolded n2 nm]
  have p: "fst (snd (processImages examplePlatform secondBrokenStore 0 1 exampleOptions)) =
      map (\<lambda>i. real (i + 1) / real (2::nat) * 100) [0..<1]"
    using run by (rule conjunct1)
  have e: "snd (snd (processImages examplePlatform secondBrokenStore 0 1 exampleOptions)) =
      Inl (Error (''Failed to load left image: '' @ ''Doe_Ann_01.jpg''))"
    using conjunct2[OF run] fr by blast
  have "fst (snd (processImages examplePlatform secondBrokenStore 0 1 exampleOptions)) = [50] \<and>
    snd (snd (processImages examplePlatform secondBrokenStore 0 1 exampleOptions)) =
     Inl (Error ''Failed to load left image: Doe_Ann_01.jpg'')"
    unfolding p e by simp
  then show ?thesis using refs k ctx fl by blast
qed

text \<open>
  C5 as stated fails. With two left photos of the same name, the run where the second
  does not decode and the run where the first does not decode end with the same error,
  so the error does not identify the pair index; and in the first run, where pair 0 was
  composed, the caller receives the progress value 50 and the error, not the result of
  pair 0.
\<close>

theorem error_without_index_counterexample:
  "snd (processImages examplePlatform secondBrokenStore 0 1 exampleOptions) =
     ([50], Inl (Error ''Failed to load left image: Doe_Ann_01.jpg'')) \<and>
   snd (processImages examplePlatform firstBrokenStore 0 1 exampleOptions) =
     ([], Inl (Error ''Failed to load left image: Doe_Ann_01.jpg''))"
  by (simp add: eval_defs secondBrokenStore_def firstBrokenStore_def)

text \<open>
  C6, as the code has it. There is no configuration error. Whenever the canvas has a
  context and both photos decode, the composite is produced whatever the transforms are,
  a scale of zero or below included: both photos are drawn with the matrix their transform
  gives. The text of the per-pair options is never absent or empty, so with text enabled
  it is drawn once, and with no explicit text what is drawn is the derived display name.
\<close>

theorem no_configuration_error:
  assumes ctx: "getContext P k"
    and left: "loadImage P k LeftImage (preview leftFile) = Some leftImg"
    and right: "loadImage P k RightImage (preview rightFile) = Some rightImg"
  shows "\<exists>result.
           createCombinedImage P k leftFile rightFile (formattedName (name leftFile))
             (Some (textOpts g (formattedName (name leftFile)))) = Inr result \<and>
           filter isDrawImage (dataUrl result) =
             [DrawImage (halfMatrix 0 (transform leftFile) identity) leftImg
                ((960 - coverWidth leftImg) / 2) ((1080 - coverHeight leftImg) / 2)
                (coverWidth leftImg) (coverHeight leftImg),
              DrawImage (halfMatrix 960 (transform rightFile) identity) rightImg
                (960 + (960 - coverWidth rightImg) / 2) ((1080 - coverHeight rightImg) / 2)
                (coverWidth rightImg) (coverHeight rightImg)] \<and>
           truthy (opt_text (textOpts g (formattedName (name leftFile)))) \<and>
           (opt_enabled g \<longrightarrow>
              length (filter isFillText (dataUrl result)) = 1 \<and>
              (opt_text g = None \<longrightarrow>
                 (\<forall>c \<in> set (filter isFillText (dataUrl result)).
                    \<exists>m st fnt tx ty. c = FillText m st fnt (formattedName (name leftFile)) tx ty)))"
proof -
  define nm where "nm = formattedName (name leftFile)"
  define t where "t = textOpts g nm"
  have ne: "nm \<noteq> []" unfolding nm_def by (rule formattedName_not_empty)
  have tr: "truthy (opt_text t)"
    using ne by (simp add: t_def textOpts_def truthy_def orElse_def split: option.splits)
  have en: "opt_enabled t = opt_enabled g" by (simp add: t_def textOpts_def)
  have gtext: "opt_text g = None \<Longrightarrow> opt_enabled g \<Longrightarrow> orElse (opt_text t) [] = nm"
    using ne by (simp add: t_def textOpts_def orElse_def)
  have res: "createCombinedImage P k leftFile rightFile nm (Some t) =
      Inr (checkBothLoaded P leftImg rightImg leftFile rightFile nm (Some t) whiteCanvas)"
    by (rule createCombinedImage_loaded[OF ctx left right])
  have draw: "filter isDrawImage
       (dataUrl (checkBothLoaded P leftImg rightImg leftFile rightFile nm (Some t) whiteCanvas)) =
     [DrawImage (halfMatrix 0 (transform leftFile) identity) leftImg
        ((960 - coverWidth leftImg) / 2) ((1080 - coverHeight leftImg) / 2)
        (coverWidth leftImg) (coverHeight leftImg),
      DrawImage (halfMatrix 960 (transform rightFile) identity) rightImg
        (960 + (960 - coverWidth rightImg) / 2) ((1080 - coverHeight rightImg) / 2)
        (coverWidth rightImg) (coverHeight rightImg)]"
    unfolding checkBothLoaded_dataUrl by (simp add: filter_textCommands(3))
  have fill: "filter isFillText
       (dataUrl (checkBothLoaded P leftImg rightImg leftFile rightFile nm (Some t) whiteCanvas)) =
     filter isFillText (textCommands P t)" if "opt_enabled g"
    unfolding checkBothLoaded_dataUrl using that tr en by simp
  show ?thesis
    unfolding nm_def[symmetric] t_def[symmetric]
    apply (intro exI[of _ "checkBothLoaded P leftImg rightImg leftFile rightFile nm (Some t)
        whiteCanvas"] conjI impI)
         apply (rule res)
        apply (rule draw)
       apply (rule tr)
      apply (simp add: fill filter_textCommands(1))
     apply (simp add: fill filter_textCommands(1) gtext)
    done
qed

theorem no_configuration_error_witness:
  "getContext examplePlatform 0 \<and>
   loadImage examplePlatform 0 LeftImage (preview (degenerateStore ! 0 ! 0)) =
     Some \<lparr>src = ''blob:b1'', width = 1920, height = 1080\<rparr> \<and>
   loadImage examplePlatform 0 RightImage (preview (degenerateStore ! 1 ! 0)) =
     Some \<lparr>src = ''blob:c1'', width = 1920, height = 1080\<rparr> \<and>
   isl (createCombinedImage examplePlatform 0 (degenerateStore ! 0 ! 0) (degenerateStore ! 1 ! 0)
          (formattedName (name (degenerateStore ! 0 ! 0)))
          (Some (textOpts exampleOptions (formattedName (name (degenerateStore ! 0 ! 0))))))
     = False"
proof -
  have ctx: "getContext examplePlatform 0" by (simp add: examplePlatform_def)
  have left: "loadImage examplePlatform 0 LeftImage (preview (degenerateStore ! 0 ! 0)) =
     Some \<lparr>src = ''blob:b1'', width = 1920, height = 1080\<rparr>"
    by (simp add: examplePlatform_def degenerateStore_def)
  have right: "loadImage examplePlatform 0 RightImage (preview (degenerateStore ! 1 ! 0)) =
     Some \<lparr>src = ''blob:c1'', width = 1920, height = 1080\<rparr>"
    by (simp add: examplePlatform_def degenerateStore_def)
  from no_configuration_error[OF ctx left right, of exampleOptions]
  have "isl (createCombinedImage examplePlatform 0 (degenerateStore ! 0 ! 0)
          (degenerateStore ! 1 ! 0) (formattedName (name (degenerateStore ! 0 ! 0)))
          (Some (textOpts exampleOptions (formattedName (name (degenerateStore ! 0 ! 0))))))
     = False"
    by auto
  with ctx left right show ?thesis by blast
qed

text \<open>
  C6 as stated fails. For a pair with scales 0 and -1, text enabled without explicit text
  and a left file name without underscore, the run ends with one result: both photos are
  drawn (with degenerate and mirrored matrices) and the text drawn is
  \<open>undefined portrait.jpg\<close>.
\<close>

theorem nonpositive_scale_counterexample:
  "snd (processImages examplePlatform degenerateStore 0 1 exampleOptions) =
     ([100],
      Inr [\<lparr>dataUrl =
              [FillRect (Matrix 1 0 0 1 0 0) ''#FFFFFF'' 0 0 1920 1080,
               DrawImage (Matrix 0 0 0 0 480 540)
                 \<lparr>src = ''blob:b1'', width = 1920, height = 1080\<rparr> (- 480) 0 1920 1080,
               DrawImage (Matrix (- 1) 0 0 (- 1) 1920 1080)
                 \<lparr>src = ''blob:c1'', width = 1920, height = 1080\<rparr> 480 0 1920 1080,
               FillText (Matrix 1 0 0 1 0 0) ''#000000'' ''bold 48px Arial''
                 ''undefined portrait.jpg'' 1680 1060],
            resultName = ''undefined portrait.jpg'',
            leftPhoto = ''blob:b1'', rightPhoto = ''blob:c1'',
            resultTextOptions =
              Some \<lparr>opt_enabled = True, opt_text = Some ''undefined portrait.jpg'',
                     opt_font = ''Arial'', opt_size = 48, opt_bold = True,
                     opt_italic = False, opt_color = Some ''#000000'',
                     opt_position = BottomRight, opt_stroke = False,
                     opt_strokeColor = None, opt_strokeWidth = None\<rparr>,
            resultTransform =
              (Some \<lparr>rotation = 0, scale = 0, position = (0, 0)\<rparr>,
               Some \<lparr>rotation = 0, scale = - 1, position = (0, 0)\<rparr>)\<rparr>])"
  by (simp add: eval_defs degenerateStore_def textCommands_def)

text \<open>
  C7. In every run \<open>onProgress\<close> receives, in order, the values \<open>(i + 1) / total * 100\<close>
  for \<open>i\<close> from 0, one per completed composite; they are strictly increasing and lie in
  \<open>[0, 100]\<close>. When the batch completes there are as many values as results, and for a
  non-empty batch the last one is exactly 100.
\<close>

theorem progress_reports:
  "let n = min (length (h ! babyPhotos)) (length (h ! currentPhotos));
       progress = fst (snd (processImages P h babyPhotos currentPhotos g));
       outcome = snd (snd (processImages P h babyPhotos currentPhotos g))
   in progress = map (\<lambda>i. real (i + 1) / real n * 100) [0..<length progress] \<and>
      length progress \<le> n \<and>
      sorted_wrt (<) progress \<and>
      (\<forall>v \<in> set progress. 0 \<le> v \<and> v \<le> 100) \<and>
      (\<forall>results. outcome = Inr results \<longrightarrow>
         length results = n \<and> length progress = n \<and> (0 < n \<longrightarrow> last progress = 100))"
proof -
  define n where "n = min (length (h ! babyPhotos)) (length (h ! currentPhotos))"
  obtain h' sb sc where run: "snd (processImages P h babyPhotos currentPhotos g) =
      forLoop P h' sb sc n g 0 [] []"
    using processImages_loop[of P h babyPhotos currentPhotos g] unfolding n_def by blast
  obtain k where k: "k \<le> n"
    "fst (forLoop P h' sb sc n g 0 [] []) = map (progressValue n) [0..<k]"
    "case snd (forLoop P h' sb sc n g 0 [] []) of
       Inr rs \<Rightarrow> k = n \<and> rs = [] @ map (\<lambda>j. projr (pairResult P g (h' ! sb) (h' ! sc) j)) [0..<n]
     | Inl e \<Rightarrow> k < n \<and> pairResult P g (h' ! sb) (h' ! sc) k = Inl e"
    using forLoop_run[of 0 n P g h' sb sc "[]" "[]"] by auto
  define progress where "progress = fst (snd (processImages P h babyPhotos currentPhotos g))"
  have p: "progress = map (progressValue n) [0..<k]"
    unfolding progress_def run by (rule k(2))
  have len: "length progress = k" by (simp add: p)
  have a: "progress = map (\<lambda>i. real (i + 1) / real n * 100) [0..<length progress]"
    unfolding len unfolding p by (simp add: progressValue_def)
  have b: "length progress \<le> n" using len k(1) by simp
  have c: "sorted_wrt (<) progress" unfolding p by (rule progress_sorted[OF k(1)])
  have d: "\<forall>v \<in> set progress. 0 \<le> v \<and> v \<le> 100"
    unfolding p using k(1) progress_bounds[of _ n] by auto
  have e: "\<forall>results. snd (snd (processImages P h babyPhotos currentPhotos g)) = Inr results \<longrightarrow>
         length results = n \<and> length progress = n \<and> (0 < n \<longrightarrow> last progress = 100)"
  proof (intro allI impI)
    fix results
    assume "snd (snd (processImages P h babyPhotos currentPhotos g)) = Inr results"
    with k(3) run have kn: "k = n" and "length results = n" by simp_all
    then show "length results = n \<and> length progress = n \<and> (0 < n \<longrightarrow> last progress = 100)"
      using len p progress_last[of n] by simp
  qed
  show ?thesis
    unfolding Let_def n_def[symmetric] progress_def[symmetric]
    using a b c d e by blast
qed

theorem progress_reports_witness:
  "fst (snd (processImages examplePlatform exampleStore 0 1 exampleOptions)) = [50, 100] \<and>
   length (projr (snd (snd (processImages examplePlatform exampleStore 0 1 exampleOptions)))) = 2 \<and>
   last (fst (snd (processImages examplePlatform exampleStore 0 1 exampleOptions))) = 100"
  using progress_reports[of exampleStore 0 1 examplePlatform exampleOptions]
    example_run_succeeds example_run_progress
  unfolding Let_def example_lengths by simp

text \<open>
  C8. For a composite whose text options are enabled with a non-empty text, the text is
  filled exactly once, on the canvas as a whole (identity matrix), at the anchor of the
  table with margin 20: top-left \<open>(20, size + 20)\<close>, top-right
  \<open>(1920 - textWidth - 20, size + 20)\<close>, bottom-left \<open>(20, 1080 - 20)\<close>, bottom-right
  \<open>(1920 - textWidth - 20, 1080 - 20)\<close>, where \<open>textWidth\<close> is the measured width of the
  text in the font. The outline, when \<open>stroke\<close> is set, is drawn once at the same anchor.
\<close>

theorem text_anchor_table:
  assumes ok: "createCombinedImage P k leftFile rightFile displayName (Some t) = Inr result"
    and en: "opt_enabled t" and tx: "opt_text t = Some s" and ne: "s \<noteq> []"
  shows "let textWidth = measureText P (fontString P t) s;
             sizePx = opt_size t;
             anchor = (case opt_position t of
                         TopLeft \<Rightarrow> (20, sizePx + 20)
                       | TopRight \<Rightarrow> (1920 - textWidth - 20, sizePx + 20)
                       | BottomLeft \<Rightarrow> (20, 1080 - 20)
                       | BottomRight \<Rightarrow> (1920 - textWidth - 20, 1080 - 20))
         in filter isFillText (dataUrl result) =
              [FillText identity (orElse (opt_color t) ''#000000'') (fontString P t) s
                 (fst anchor) (snd anchor)] \<and>
            filter isStrokeText (dataUrl result) =
              (if opt_stroke t
               then [StrokeText identity (orElse (opt_strokeColor t) ''#FFFFFF'')
                       (orElseNumber (opt_strokeWidth t) 2) (fontString P t) s
                       (fst anchor) (snd anchor)]
               else [])"
proof -
  from createCombinedImage_Inr[OF ok] obtain li ri where
    res: "result = checkBothLoaded P li ri leftFile rightFile displayName (Some t) whiteCanvas"
    by blast
  have s: "orElse (opt_text t) [] = s" using tx ne by (simp add: orElse_def)
  have tr: "truthy (opt_text t)" using tx ne by (simp add: truthy_def)
  have d: "dataUrl result =
     [FillRect identity ''#FFFFFF'' 0 0 1920 1080,
      DrawImage (halfMatrix 0 (transform leftFile) identity) li
        ((960 - coverWidth li) / 2) ((1080 - coverHeight li) / 2)
        (coverWidth li) (coverHeight li),
      DrawImage (halfMatrix 960 (transform rightFile) identity) ri
        (960 + (960 - coverWidth ri) / 2) ((1080 - coverHeight ri) / 2)
        (coverWidth ri) (coverHeight ri)] @ textCommands P t"
    unfolding res checkBothLoaded_dataUrl using en tr by simp
  show ?thesis
    unfolding Let_def d textAnchor_cases[symmetric]
    using filter_textCommands(1,2)[of P t] unfolding s by simp
qed

theorem text_anchor_table_witness:
  "createCombinedImage examplePlatform 0 (exampleStore ! 0 ! 0) (exampleStore ! 1 ! 0)
     ''John Smith'' (Some (textOpts exampleOptions ''John Smith'')) =
     Inr (checkBothLoaded examplePlatform
            \<lparr>src = ''blob:b2'', width = 1920, height = 1080\<rparr>
            \<lparr>src = ''blob:c2'', width = 1920, height = 1080\<rparr>
            (exampleStore ! 0 ! 0) (exampleStore ! 1 ! 0) ''John Smith''
            (Some (textOpts exampleOptions ''John Smith'')) whiteCanvas) \<and>
   opt_enabled (textOpts exampleOptions ''John Smith'') \<and>
   opt_text (textOpts exampleOptions ''John Smith'') = Some ''John Smith'' \<and>
   filter isFillText
     (dataUrl (checkBothLoaded examplePlatform
            \<lparr>src = ''blob:b2'', width = 1920, height = 1080\<rparr>
            \<lparr>src = ''blob:c2'', width = 1920, height = 1080\<rparr>
            (exampleStore ! 0 ! 0) (exampleStore ! 1 ! 0) ''John Smith''
            (Some (textOpts exampleOptions ''John Smith'')) whiteCanvas)) =
     [FillText identity ''#000000'' ''bold 48px Arial'' ''John Smith'' 1800 1060]"
proof -
  have ok: "createCombinedImage examplePlatform 0 (exampleStore ! 0 ! 0) (exampleStore ! 1 ! 0)
     ''John Smith'' (Some (textOpts exampleOptions ''John Smith'')) =
     Inr (checkBothLoaded examplePlatform
            \<lparr>src = ''blob:b2'', width = 1920, height = 1080\<rparr>
            \<lparr>src = ''blob:c2'', width = 1920, height = 1080\<rparr>
            (exampleStore ! 0 ! 0) (exampleStore ! 1 ! 0) ''John Smith''
            (Some (textOpts exampleOptions ''John Smith'')) whiteCanvas)"
    by (rule createCombinedImage_loaded)
       (simp_all add: examplePlatform_def exampleStore_def)
  have en: "opt_enabled (textOpts exampleOptions ''John Smith'')"
    by (simp add: textOpts_def exampleOptions_def)
  have tx: "opt_text (textOpts exampleOptions ''John Smith'') = Some ''John Smith''"
    by (simp add: textOpts_def exampleOptions_def orElse_def)
  have ne: "''John Smith'' \<noteq> []" by simp
  have vals: "fontString examplePlatform (textOpts exampleOptions ''John Smith'') = ''bold 48px Arial''"
    "opt_position (textOpts exampleOptions ''John Smith'') = BottomRight"
    "orElse (opt_color (textOpts exampleOptions ''John Smith'')) ''#000000'' = ''#000000''"
    "measureText examplePlatform ''bold 48px Arial'' ''John Smith'' = 100"
    by (simp_all add: fontString_def textOpts_def exampleOptions_def examplePlatform_def
        orElse_def)
  show ?thesis
    using text_anchor_table[OF ok en tx ne] ok en tx
    unfolding Let_def vals by simp
qed

text \<open>
  C9. With the photo, the rotation and the offset fixed, doubling the scale of the
  transform doubles the displacement from the centre of the half of the place where any
  point is drawn, and so the distance between the places of any two points. The centre is
  the image of \<open>(x + 480, 540)\<close> under the matrix in force when \<open>drawImage\<close> is called,
  the identity in \<open>createCombinedImage\<close>.
\<close>

theorem scale_doubling:
  "let centre = mapPoint (ctm (state c)) (x + 480, 540);
       drawn = (\<lambda>k. mapPoint (commandMatrix
                 (last (ops (drawImage img x (Some (t\<lparr>scale := k\<rparr>)) c)))))
   in fst (drawn (2 * s) p) - fst centre = 2 * (fst (drawn s p) - fst centre) \<and>
      snd (drawn (2 * s) p) - snd centre = 2 * (snd (drawn s p) - snd centre) \<and>
      fst (drawn (2 * s) p) - fst (drawn (2 * s) q) = 2 * (fst (drawn s p) - fst (drawn s q)) \<and>
      snd (drawn (2 * s) p) - snd (drawn (2 * s) q) = 2 * (snd (drawn s p) - snd (drawn s q))"
  unfolding Let_def last_ops_drawImage
  by (subst (1 2 3 4 5 6 7 8 9 10 11 12) halfMatrix_scale) (simp add: algebra_simps)

text \<open>
  C10. \<open>processImages\<close> does not change its input arrays: after the call the arrays at
  the two references passed in, and every array that existed before, hold the same
  elements in the same order; the sorted arrays are new ones.
\<close>

theorem processImages_inputs_unchanged:
  assumes "babyPhotos < length h \<and> currentPhotos < length h"
  shows "fst (processImages P h babyPhotos currentPhotos g) ! babyPhotos = h ! babyPhotos \<and>
         fst (processImages P h babyPhotos currentPhotos g) ! currentPhotos = h ! currentPhotos \<and>
         take (length h) (fst (processImages P h babyPhotos currentPhotos g)) = h"
proof -
  have t: "take (length h) (fst (processImages P h babyPhotos currentPhotos g)) = h"
    by (rule store_prefix)
  have "fst (processImages P h babyPhotos currentPhotos g) ! r = h ! r" if "r < length h" for r
    using nth_take[OF that, of "fst (processImages P h babyPhotos currentPhotos g)"]
    unfolding t by simp
  with assms t show ?thesis by simp
qed

theorem processImages_inputs_unchanged_witness:
  "((0::nat) < length exampleStore \<and> (1::nat) < length exampleStore) \<and>
   map name (fst (processImages examplePlatform exampleStore 0 1 exampleOptions) ! 0) =
     [''Smith_John_01.jpg'', ''Doe_Ann_01.jpg''] \<and>
   map name (fst (processImages examplePlatform exampleStore 0 1 exampleOptions) ! 2) =
     [''Doe_Ann_01.jpg'', ''Smith_John_01.jpg''] \<and>
   map name (sortInPlace (byName examplePlatform) exampleStore 0 ! 0) =
     [''Doe_Ann_01.jpg'', ''Smith_John_01.jpg'']"
proof -
  have refs: "(0::nat) < length exampleStore \<and> (1::nat) < length exampleStore"
    by (simp add: example_lengths)
  have a: "map name (exampleStore ! 0) = [''Smith_John_01.jpg'', ''Doe_Ann_01.jpg'']"
    by (simp add: exampleStore_def)
  have b: "map name (fst (processImages examplePlatform exampleStore 0 1 exampleOptions) ! 2) =
     [''Doe_Ann_01.jpg'', ''Smith_John_01.jpg'']"
    using refs unfolding processImages_eq[OF conjunct2[OF refs]] example_sorted_left example_lengths
    by (simp add: nth_append example_lengths)
  have c: "map name (sortInPlace (byName examplePlatform) exampleStore 0 ! 0) =
     [''Doe_Ann_01.jpg'', ''Smith_John_01.jpg'']"
    unfolding sortInPlace_def example_sorted_left using refs by simp
  show ?thesis
    using processImages_inputs_unchanged[OF refs, of examplePlatform exampleOptions] refs a b c
    by simp
qed

end
